theory Spec2Isabelle
  imports Main
begin

section \<open>Values, entity records and the Entity Store\<close>

text \<open>
  The payloads handled by the data layer are JavaScript objects. A value is one of the
  JSON shapes (plus \<open>undefined\<close>, which is what reading a missing property gives);
  an object that is spread, merged or stored is a finite map from property names to
  values.
\<close>

datatype jsval =
    JUndefined
  | JNull
  | JBool bool
  | JNum int
  | JStr string
  | JArr "jsval list"
  | JObj "(string \<times> jsval) list"

type_synonym model = "string \<rightharpoonup> jsval"

text \<open>
  The outcome of a request, as \<^verbatim>\<open>Promise.allSettled\<close> reports it:
  \<^verbatim>\<open>{status: 'fulfilled', value}\<close> or \<^verbatim>\<open>{status: 'rejected', reason}\<close>.
  The HTTP client raises on a network failure and on a non-2xx response.
\<close>

datatype error = NetworkFailure | RequestFailure nat

datatype 'a settled = Fulfilled 'a | Rejected error

fun is_fulfilled :: "'a settled \<Rightarrow> bool" where
  "is_fulfilled (Fulfilled v) = True"
| "is_fulfilled (Rejected reason) = False"

text \<open>
  Modelled from the spec: the Entity Store (the module \<^verbatim>\<open>model-store\<close> imported by
  \<^verbatim>\<open>thunks.js\<close> is not among the sources). It is a mapping from entity type and id to
  an entity record; \<open>merge\<close> creates the record if absent and otherwise shallow-merges
  the fields, new values overwriting old; \<open>get\<close> returns the record or the absent
  marker. Neither fails, and there is no deletion.
\<close>

type_synonym store = "string \<times> jsval \<rightharpoonup> model"

definition merge :: "string \<Rightarrow> jsval \<Rightarrow> model \<Rightarrow> store \<Rightarrow> store" where
  "merge entityType ident partialRecord s =
     (case s (entityType, ident) of
        None \<Rightarrow> s((entityType, ident) \<mapsto> partialRecord)
      | Some existing \<Rightarrow> s((entityType, ident) \<mapsto> existing ++ partialRecord))"

definition get :: "string \<Rightarrow> jsval \<Rightarrow> store \<Rightarrow> model option" where
  "get entityType ident s = s (entityType, ident)"

text \<open>
  Modelled from the spec: reading the current value of a field from the Entity Store. A
  missing record or field reads as the absent marker, JavaScript's \<open>undefined\<close>.
\<close>

definition read_field :: "string \<Rightarrow> jsval \<Rightarrow> string \<Rightarrow> store \<Rightarrow> jsval" where
  "read_field entityType ident field s =
     (case get entityType ident s of
        None \<Rightarrow> JUndefined
      | Some r \<Rightarrow> (case r field of None \<Rightarrow> JUndefined | Some v \<Rightarrow> v))"

section \<open>Redux state, actions and the observable trace\<close>

text \<open>
  Modelled from the spec: the Resource Status Tracker (the module \<^verbatim>\<open>slice\<close> that defines
  \<^verbatim>\<open>fetchTabRequest\<close>, \<^verbatim>\<open>fetchTabSuccess\<close> and \<^verbatim>\<open>fetchTabFailure\<close> is not among the
  sources). A resource is a course or a sequence; its status starts \<open>Idle\<close>, a fetch
  start makes it \<open>Pending\<close>, and the outcome makes it \<open>Loaded\<close>, \<open>Denied\<close> or
  \<open>Failed\<close>.
\<close>

datatype status = Idle | Pending | Loaded | Denied | Failed

datatype resource = Course string | Sequence string

text \<open>
  The actions that reach the store. The first four are the ones \<^verbatim>\<open>thunks.js\<close>
  dispatches; \<open>StatusUpdate\<close> and \<open>Merge\<close> are the status and entity events of the
  courseware thunks, which are modelled from the spec further down.
\<close>

datatype action =
    FetchTabRequest string
  | FetchTabSuccess string
  | FetchTabFailure string
  | AddModel string model
  | StatusUpdate resource status
  | Merge string jsval model

text \<open>The requests that can be in flight, named after the promise each one settles.\<close>

datatype request =
    CourseHomeCourseMetadata
  | TabData
  | CourseDeadlines
  | CourseMetadata
  | CourseBlocks
  | SequenceMetadata
  | SequencePosition

text \<open>
  Everything an observer can see, in the order it happens: an action reaching the store,
  a call of \<^verbatim>\<open>logError\<close>, a request settling, the promise returned by a thunk resolving
  or rejecting, and a rejection that no handler catches.
\<close>

datatype event =
    Dispatched action
  | Logged error
  | Settled request
  | ThunkResolved
  | ThunkRejected error
  | UnhandledRejection error

record world =
  models :: store
  status :: "resource \<Rightarrow> status"
  logged :: "error list"
  trace :: "event list"

text \<open>The \<open>id\<close> property of a record, as \<^verbatim>\<open>model.id\<close> reads it.\<close>

definition model_id :: "model \<Rightarrow> jsval" where
  "model_id m = (case m ''id'' of None \<Rightarrow> JUndefined | Some v \<Rightarrow> v)"

text \<open>
  Modelled from the spec: the reducers. \<^verbatim>\<open>addModel({modelType, model})\<close> is the
  Entity Store write for the record \<open>model\<close> under its own \<open>id\<close>; the three
  \<^verbatim>\<open>fetchTab*\<close> actions are the status transitions of the course.
\<close>

fun reducer :: "action \<Rightarrow> world \<Rightarrow> world" where
  "reducer (FetchTabRequest courseId) w = w\<lparr>status := (status w)(Course courseId := Pending)\<rparr>"
| "reducer (FetchTabSuccess courseId) w = w\<lparr>status := (status w)(Course courseId := Loaded)\<rparr>"
| "reducer (FetchTabFailure courseId) w = w\<lparr>status := (status w)(Course courseId := Failed)\<rparr>"
| "reducer (AddModel modelType m) w = w\<lparr>models := merge modelType (model_id m) m (models w)\<rparr>"
| "reducer (StatusUpdate r st) w = w\<lparr>status := (status w)(r := st)\<rparr>"
| "reducer (Merge entityType ident partialRecord) w =
     w\<lparr>models := merge entityType ident partialRecord (models w)\<rparr>"

text \<open>Dispatching an action runs the reducers on it; the trace records the action.\<close>

definition dispatch :: "action \<Rightarrow> world \<Rightarrow> world" where
  "dispatch a w = (reducer a w)\<lparr>trace := trace w @ [Dispatched a]\<rparr>"

text \<open>
  Modelled from the spec: the logging collaborator \<^verbatim>\<open>logError(error)\<close>, fire-and-forget.
  The world keeps the errors it was called with.
\<close>

definition logError :: "error \<Rightarrow> world \<Rightarrow> world" where
  "logError e w = w\<lparr>logged := logged w @ [e], trace := trace w @ [Logged e]\<rparr>"

text \<open>An event that changes nothing but the trace.\<close>

definition observe :: "event \<Rightarrow> world \<Rightarrow> world" where
  "observe ev w = w\<lparr>trace := trace w @ [ev]\<rparr>"

section \<open>Promises on the event loop\<close>

text \<open>
  The scheduling model is single-threaded: the body of a thunk and each callback run to
  completion, and requests settle in between, in an order the program does not control.
  A schedule lists the requests in the order the network settles them; an entry for a
  request that is not in flight has no effect. \<open>settle_requests\<close> runs the schedule
  until every request of the given set has settled or the schedule is exhausted, and
  returns the requests still in flight, the unused rest of the schedule and the world.
\<close>

type_synonym schedule = "request list"

fun settle_requests :: "request list \<Rightarrow> schedule \<Rightarrow> world \<Rightarrow> request list \<times> schedule \<times> world" where
  "settle_requests [] sched w = ([], sched, w)"
| "settle_requests (p # ps) [] w = (p # ps, [], w)"
| "settle_requests (p # ps) (r # sched) w =
     (if r \<in> set (p # ps)
      then settle_requests (removeAll r (p # ps)) sched (observe (Settled r) w)
      else settle_requests (p # ps) sched w)"

text \<open>
  \<^verbatim>\<open>Promise.allSettled(ps).then(callback)\<close>: the callback runs once, after every promise
  of \<open>ps\<close> has settled, whatever the outcomes; if one of them never settles it never
  runs. The callback gets the rest of the schedule for the requests it may start.
\<close>

definition allSettled_then ::
  "request list \<Rightarrow> (schedule \<Rightarrow> world \<Rightarrow> world) \<Rightarrow> schedule \<Rightarrow> world \<Rightarrow> world" where
  "allSettled_then ps callback sched w =
     (case settle_requests ps sched w of
        ([], rest, w') \<Rightarrow> callback rest w'
      | (q # qs, rest, w') \<Rightarrow> w')"

text \<open>
  \<^verbatim>\<open>promise.then(onFulfilled)\<close> with no rejection handler: the callback runs only when
  the promise fulfills; a rejection propagates to the promise that \<^verbatim>\<open>then\<close> returned,
  which nobody holds, so it is reported as unhandled.
\<close>

definition promise_then ::
  "request \<Rightarrow> 'a settled \<Rightarrow> ('a \<Rightarrow> schedule \<Rightarrow> world \<Rightarrow> world) \<Rightarrow> schedule \<Rightarrow> world \<Rightarrow> world" where
  "promise_then p result onFulfilled sched w =
     (case settle_requests [p] sched w of
        ([], rest, w') \<Rightarrow>
          (case result of
             Fulfilled v \<Rightarrow> onFulfilled v rest w'
           | Rejected reason \<Rightarrow> observe (UnhandledRejection reason) w')
      | (q # qs, rest, w') \<Rightarrow> w')"

section \<open>The course-home thunks\<close>

text \<open>
  The functions imported from \<^verbatim>\<open>./api\<close>. Each returns a promise; the model gives the
  outcome that promise settles with. When it settles is the schedule's matter.
\<close>

record api =
  getCourseHomeCourseMetadata :: "string \<Rightarrow> model settled"
  getDatesTabData :: "string \<Rightarrow> model settled"
  getOutlineTabData :: "string \<Rightarrow> model settled"
  updateCourseDeadlines :: "string \<Rightarrow> jsval settled"

type_synonym thunk = "schedule \<Rightarrow> world \<Rightarrow> world"

text \<open>The object literal \<^verbatim>\<open>{ id: courseId, ...value }\<close>: the spread properties come
  later and win, also over \<open>id\<close>.\<close>

definition with_id :: "string \<Rightarrow> model \<Rightarrow> model" where
  "with_id courseId v = [''id'' \<mapsto> JStr courseId] ++ v"

text \<open>The callback that \<^verbatim>\<open>fetchTab\<close> passes to \<^verbatim>\<open>then\<close>, applied to the two results.\<close>

definition fetchTab_then ::
  "string \<Rightarrow> string \<Rightarrow> model settled \<Rightarrow> model settled \<Rightarrow> world \<Rightarrow> world" where
  "fetchTab_then courseId tab courseHomeCourseMetadataResult tabDataResult w =
     (let fetchedCourseHomeCourseMetadata = is_fulfilled courseHomeCourseMetadataResult;
          fetchedTabData = is_fulfilled tabDataResult;
          w1 = (case courseHomeCourseMetadataResult of
                  Fulfilled v \<Rightarrow> dispatch (AddModel ''courses'' (with_id courseId v)) w
                | Rejected reason \<Rightarrow> logError reason w);
          w2 = (case tabDataResult of
                  Fulfilled v \<Rightarrow> dispatch (AddModel tab (with_id courseId v)) w1
                | Rejected reason \<Rightarrow> logError reason w1)
      in if fetchedCourseHomeCourseMetadata \<and> fetchedTabData
         then dispatch (FetchTabSuccess courseId) w2
         else dispatch (FetchTabFailure courseId) w2)"

text \<open>
  \<^verbatim>\<open>fetchTab(courseId, tab, getTabData)\<close>. The body of the async function dispatches
  \<^verbatim>\<open>fetchTabRequest\<close>, starts both requests, registers the callback and returns: it
  awaits nothing, so its promise resolves there.
\<close>

definition fetchTab :: "api \<Rightarrow> string \<Rightarrow> string \<Rightarrow> (string \<Rightarrow> model settled) \<Rightarrow> thunk" where
  "fetchTab a courseId tab getTabData sched w =
     (let w1 = dispatch (FetchTabRequest courseId) w;
          courseHomeCourseMetadataResult = getCourseHomeCourseMetadata a courseId;
          tabDataResult = getTabData courseId;
          w2 = observe ThunkResolved w1
      in allSettled_then [CourseHomeCourseMetadata, TabData]
           (\<lambda>rest. fetchTab_then courseId tab courseHomeCourseMetadataResult tabDataResult)
           sched w2)"

definition fetchDatesTab :: "api \<Rightarrow> string \<Rightarrow> thunk" where
  "fetchDatesTab a courseId = fetchTab a courseId ''dates'' (getDatesTabData a)"

definition fetchOutlineTab :: "api \<Rightarrow> string \<Rightarrow> thunk" where
  "fetchOutlineTab a courseId = fetchTab a courseId ''outline'' (getOutlineTabData a)"

text \<open>
  \<^verbatim>\<open>resetDeadlines(courseId, getTabData)\<close>. Here \<open>getTabData\<close> makes a thunk, and
  dispatching a thunk runs it. The body starts the request, registers the callback and
  returns.
\<close>

definition resetDeadlines :: "api \<Rightarrow> string \<Rightarrow> (string \<Rightarrow> thunk) \<Rightarrow> thunk" where
  "resetDeadlines a courseId getTabData sched w =
     (let result = updateCourseDeadlines a courseId;
          w1 = observe ThunkResolved w
      in promise_then CourseDeadlines result
           (\<lambda>response rest. getTabData courseId rest) sched w1)"

section \<open>The courseware thunks\<close>

text \<open>
  The thunks \<^verbatim>\<open>fetchCourse\<close>, \<^verbatim>\<open>fetchSequence\<close> and \<^verbatim>\<open>saveSequencePosition\<close> are
  exercised by the integration tests, but their module is not among the sources. The
  definitions of this section follow the contracts the spec gives for the Fetch
  Orchestrator and the Optimistic Mutation Orchestrator. The spec does not say when
  the promise returned by these thunks resolves, so they record no resolution event.
\<close>

text \<open>
  Modelled from the spec: a normalized payload. Each entity of a response is a record of
  its own, with its entity type and its own id; the tree shape survives only as id
  fields inside the records.
\<close>

type_synonym entity = "string \<times> jsval \<times> model"

text \<open>
  Modelled from the spec: the courseware endpoints, as the outcome each request settles
  with. The course metadata is one record; the block tree and the sequence metadata
  arrive normalized, as the records of the entities they introduce.
\<close>

record courseware_api =
  getCourseMetadata :: "string \<Rightarrow> model settled"
  getCourseBlocks :: "string \<Rightarrow> entity list settled"
  getSequenceMetadata :: "string \<Rightarrow> entity list settled"
  postSequencePosition :: "string \<Rightarrow> string \<Rightarrow> jsval \<Rightarrow> jsval settled"

text \<open>
  Modelled from the spec: writing a normalized payload, one merge per entity, each
  under its own type and id.
\<close>

fun merge_entities :: "entity list \<Rightarrow> world \<Rightarrow> world" where
  "merge_entities [] w = w"
| "merge_entities ((entityType, ident, partialRecord) # es) w =
     merge_entities es (dispatch (Merge entityType ident partialRecord) w)"

text \<open>
  The fields a normalized payload carries for the record of one type and id: those of
  its entities for that record, a later entity's value over an earlier one's. It is
  what the store is compared with after the payload has been written.
\<close>

fun payload_fields :: "string \<Rightarrow> jsval \<Rightarrow> entity list \<Rightarrow> model" where
  "payload_fields t i [] = Map.empty"
| "payload_fields t i ((entityType, ident, partialRecord) # es) =
     (if entityType = t \<and> ident = i
      then partialRecord ++ payload_fields t i es
      else payload_fields t i es)"

text \<open>
  Modelled from the spec: the authorization-denial signal of a course metadata payload,
  an access-check field that is false. The tests build it as
  \<^verbatim>\<open>can_load_courseware: { has_access: false }\<close> and read it back camel-cased.
\<close>

definition access_denied :: "model \<Rightarrow> bool" where
  "access_denied metadata =
     (case metadata ''canLoadCourseware'' of
        Some (JObj props) \<Rightarrow> map_of props ''hasAccess'' = Some (JBool False)
      | _ \<Rightarrow> False)"

text \<open>
  Modelled from the spec: what the course fetch does once both requests have settled.
  A fulfilled request's payload is merged into the store and a rejected one is logged
  and writes nothing; then the outcome is classified: both fulfilled gives \<open>Denied\<close> if
  the metadata carries the denial signal and \<open>Loaded\<close> otherwise, anything else gives
  \<open>Failed\<close>.
\<close>

definition fetchCourse_then ::
  "string \<Rightarrow> model settled \<Rightarrow> entity list settled \<Rightarrow> world \<Rightarrow> world" where
  "fetchCourse_then courseId metadataResult blocksResult w =
     (let w1 = (case metadataResult of
                  Fulfilled metadata \<Rightarrow> dispatch (Merge ''courses'' (JStr courseId) metadata) w
                | Rejected reason \<Rightarrow> logError reason w);
          w2 = (case blocksResult of
                  Fulfilled blocks \<Rightarrow> merge_entities blocks w1
                | Rejected reason \<Rightarrow> logError reason w1);
          outcome = (case metadataResult of
                       Fulfilled metadata \<Rightarrow>
                         (if is_fulfilled blocksResult
                          then (if access_denied metadata then Denied else Loaded)
                          else Failed)
                     | Rejected reason \<Rightarrow> Failed)
      in dispatch (StatusUpdate (Course courseId) outcome) w2)"

text \<open>
  Modelled from the spec: the course fetch. It emits \<open>Pending\<close> at once, issues the
  metadata and the block-tree request together and waits for both to settle.
\<close>

definition fetchCourse :: "courseware_api \<Rightarrow> string \<Rightarrow> thunk" where
  "fetchCourse a courseId sched w =
     (let w1 = dispatch (StatusUpdate (Course courseId) Pending) w
      in allSettled_then [CourseMetadata, CourseBlocks]
           (\<lambda>rest. fetchCourse_then courseId (getCourseMetadata a courseId)
                      (getCourseBlocks a courseId))
           sched w1)"

text \<open>
  Modelled from the spec: the sequence fetch, a fetch of one request. The spec names
  no denial signal for a sequence payload, so the outcome is \<open>Loaded\<close> or \<open>Failed\<close>.
\<close>

definition fetchSequence :: "courseware_api \<Rightarrow> string \<Rightarrow> thunk" where
  "fetchSequence a sequenceId sched w =
     (let w1 = dispatch (StatusUpdate (Sequence sequenceId) Pending) w
      in allSettled_then [SequenceMetadata]
           (\<lambda>rest w'.
              (case getSequenceMetadata a sequenceId of
                 Fulfilled entities \<Rightarrow>
                   dispatch (StatusUpdate (Sequence sequenceId) Loaded)
                     (merge_entities entities w')
               | Rejected reason \<Rightarrow>
                   dispatch (StatusUpdate (Sequence sequenceId) Failed)
                     (logError reason w')))
           sched w1)"

text \<open>
  Modelled from the spec: the optimistic save of the navigation position. It reads the
  current \<open>position\<close> of the sequence record as the previous value, merges the new
  value at once, issues the write request, and when that has settled either keeps the
  new value (success) or merges the previous value back and logs the error (failure).
\<close>

definition saveSequencePosition :: "courseware_api \<Rightarrow> string \<Rightarrow> string \<Rightarrow> jsval \<Rightarrow> thunk" where
  "saveSequencePosition a courseId sequenceId newValue sched w =
     (let previousValue = read_field ''sequences'' (JStr sequenceId) ''position'' (models w);
          w1 = dispatch (Merge ''sequences'' (JStr sequenceId) [''position'' \<mapsto> newValue]) w
      in allSettled_then [SequencePosition]
           (\<lambda>rest w'.
              (case postSequencePosition a courseId sequenceId newValue of
                 Fulfilled response \<Rightarrow> w'
               | Rejected reason \<Rightarrow>
                   logError reason
                     (dispatch (Merge ''sequences'' (JStr sequenceId)
                                  [''position'' \<mapsto> previousValue]) w')))
           sched w1)"

section \<open>Reading a trace\<close>

text \<open>The status transition an event stands for, if any.\<close>

fun transition :: "event \<Rightarrow> (resource \<times> status) option" where
  "transition (Dispatched (FetchTabRequest c)) = Some (Course c, Pending)"
| "transition (Dispatched (FetchTabSuccess c)) = Some (Course c, Loaded)"
| "transition (Dispatched (FetchTabFailure c)) = Some (Course c, Failed)"
| "transition (Dispatched (StatusUpdate r st)) = Some (r, st)"
| "transition ev = None"

fun is_terminal :: "status \<Rightarrow> bool" where
  "is_terminal Loaded = True"
| "is_terminal Denied = True"
| "is_terminal Failed = True"
| "is_terminal st = False"

definition terminal_transitions :: "event list \<Rightarrow> (resource \<times> status) list" where
  "terminal_transitions evs =
     filter (\<lambda>(r, st). is_terminal st) (List.map_filter transition evs)"

definition pending_transitions :: "event list \<Rightarrow> (resource \<times> status) list" where
  "pending_transitions evs =
     filter (\<lambda>(r, st). st = Pending) (List.map_filter transition evs)"

fun is_store_write :: "event \<Rightarrow> bool" where
  "is_store_write (Dispatched (AddModel t m)) = True"
| "is_store_write (Dispatched (Merge t i m)) = True"
| "is_store_write ev = False"

text \<open>The events a run added to the trace it started from.\<close>

definition new_events :: "world \<Rightarrow> world \<Rightarrow> event list" where
  "new_events w w' = drop (length (trace w)) (trace w')"

section \<open>Sample inputs\<close>

text \<open>The state at session start: an empty store, every resource idle, nothing
  logged, nothing observed.\<close>

definition initial_world :: world where
  "initial_world = \<lparr>models = Map.empty, status = (\<lambda>r. Idle), logged = [], trace = []\<rparr>"

text \<open>A server on which the course metadata and the outline load, the dates request
  hits a network error and the deadline update is refused.\<close>

definition sample_api :: api where
  "sample_api =
     \<lparr>getCourseHomeCourseMetadata = (\<lambda>c. Fulfilled [''title'' \<mapsto> JStr ''Demo'']),
      getDatesTabData = (\<lambda>c. Rejected NetworkFailure),
      getOutlineTabData = (\<lambda>c. Fulfilled [''courseTools'' \<mapsto> JNull]),
      updateCourseDeadlines = (\<lambda>c. Rejected (RequestFailure 500))\<rparr>"

text \<open>
  A courseware server in the shape of the integration tests' fixtures: one course whose
  block tree holds one sequence with one unit, sequence metadata for that sequence, and
  a position endpoint that is down.
\<close>

definition courseMetadata :: model where
  "courseMetadata =
     [''title'' \<mapsto> JStr ''Demo'',
      ''canLoadCourseware'' \<mapsto> JObj [(''hasAccess'', JBool True)]]"


definition courseBlocks :: "entity list" where
  "courseBlocks =
     [(''sequences'', JStr ''seq1'',
         [''title'' \<mapsto> JStr ''Lesson'', ''unitIds'' \<mapsto> JArr [JStr ''unit1'']]),
      (''units'', JStr ''unit1'',
         [''title'' \<mapsto> JStr ''Unit'', ''sequenceId'' \<mapsto> JStr ''seq1''])]"

definition sequenceMetadata :: "entity list" where
  "sequenceMetadata =
     [(''sequences'', JStr ''seq1'',
         [''activeUnitIndex'' \<mapsto> JNum 0, ''position'' \<mapsto> JNum 1,
          ''gatedContent'' \<mapsto> JObj []]),
      (''units'', JStr ''unit1'',
         [''title'' \<mapsto> JStr ''Page'', ''complete'' \<mapsto> JNull,
          ''bookmarked'' \<mapsto> JBool False])]"

definition sample_courseware_api :: courseware_api where
  "sample_courseware_api =
     \<lparr>getCourseMetadata = (\<lambda>c. Fulfilled courseMetadata),
      getCourseBlocks = (\<lambda>c. Fulfilled courseBlocks),
      getSequenceMetadata = (\<lambda>s. Fulfilled sequenceMetadata),
      postSequencePosition = (\<lambda>c s v. Rejected NetworkFailure)\<rparr>"

section \<open>Properties of the Entity Store\<close>

lemma get_merge_same:
  "get t i (merge t i p s) = Some (case get t i s of None \<Rightarrow> p | Some r \<Rightarrow> r ++ p)"
  by (simp add: get_def merge_def split: option.splits)

lemma get_merge_other:
  "(t', i') \<noteq> (t, i) \<Longrightarrow> get t' i' (merge t i p s) = get t' i' s"
  by (auto simp add: get_def merge_def split: option.splits)

lemma map_add_self: "(p :: 'a \<rightharpoonup> 'b) ++ p = p"
  by (rule ext) (simp add: map_add_def split: option.splits)

lemma merge_merge_same:
  "merge t i b (merge t i a s) = merge t i (a ++ b) s"
  by (simp add: merge_def split: option.splits)

lemma merge_idem: "merge t i p (merge t i p s) = merge t i p s"
  by (simp add: merge_merge_same map_add_self)

lemma merge_commute_disjoint:
  assumes "dom a \<inter> dom b = {}"
  shows "merge t i b (merge t i a s) = merge t i a (merge t i b s)"
proof -
  have "a ++ b = b ++ a"
    using assms by (rule map_add_comm)
  then show ?thesis
    by (simp add: merge_merge_same)
qed

text \<open>
  C5. Merging the same payload twice gives the same store (hence the same record) as
  merging it once; merging A then B leaves, for every field, B's value if B has the
  field, else A's value if A has it, else the value of the existing record; when A
  and B have no field in common the result does not depend on their order; a merge
  into an absent record creates it with exactly the payload; and a merge always
  yields a record (it has no failing case).
\<close>

theorem merge_idempotent_union_order:
  "merge t i a (merge t i a s) = merge t i a s
   \<and> (\<exists>r. get t i (merge t i b (merge t i a s)) = Some r
        \<and> (\<forall>f. r f = (case b f of Some v \<Rightarrow> Some v
                       | None \<Rightarrow> (case a f of Some v \<Rightarrow> Some v
                          | None \<Rightarrow> (case get t i s of None \<Rightarrow> None | Some e \<Rightarrow> e f)))))
   \<and> (dom a \<inter> dom b = {} \<longrightarrow>
        merge t i b (merge t i a s) = merge t i a (merge t i b s))
   \<and> (get t i s = None \<longrightarrow> get t i (merge t i a s) = Some a)
   \<and> get t i (merge t i a s) \<noteq> None"
proof (intro conjI)
  show "merge t i a (merge t i a s) = merge t i a s"
    by (rule merge_idem)
  show "\<exists>r. get t i (merge t i b (merge t i a s)) = Some r
        \<and> (\<forall>f. r f = (case b f of Some v \<Rightarrow> Some v
                       | None \<Rightarrow> (case a f of Some v \<Rightarrow> Some v
                          | None \<Rightarrow> (case get t i s of None \<Rightarrow> None | Some e \<Rightarrow> e f))))"
    by (simp add: merge_merge_same get_merge_same map_add_def split: option.splits)
  show "dom a \<inter> dom b = {} \<longrightarrow>
        merge t i b (merge t i a s) = merge t i a (merge t i b s)"
    by (simp add: merge_commute_disjoint)
  show "get t i s = None \<longrightarrow> get t i (merge t i a s) = Some a"
    by (simp add: get_merge_same)
  show "get t i (merge t i a s) \<noteq> None"
    by (simp add: get_merge_same)
qed

theorem merge_idempotent_union_order_witness:
  "dom [''title'' \<mapsto> JStr ''Intro''] \<inter> dom [''complete'' \<mapsto> JBool True] = {}
   \<and> get ''units'' (JStr ''u1'') Map.empty = None
   \<and> merge ''units'' (JStr ''u1'') [''complete'' \<mapsto> JBool True]
        (merge ''units'' (JStr ''u1'') [''title'' \<mapsto> JStr ''Intro''] Map.empty)
      = merge ''units'' (JStr ''u1'') [''title'' \<mapsto> JStr ''Intro'']
        (merge ''units'' (JStr ''u1'') [''complete'' \<mapsto> JBool True] Map.empty)
   \<and> get ''units'' (JStr ''u1'')
        (merge ''units'' (JStr ''u1'') [''title'' \<mapsto> JStr ''Intro''] Map.empty)
      = Some [''title'' \<mapsto> JStr ''Intro'']"
  using merge_idempotent_union_order
    [of "''units''" "JStr ''u1''" "[''title'' \<mapsto> JStr ''Intro'']" Map.empty
        "[''complete'' \<mapsto> JBool True]"]
  by (simp add: get_def)

lemma settle_requests_shape:
  "settle_requests ps sched w = (qs, rest, w') \<Longrightarrow>
     \<exists>xs. w' = w\<lparr>trace := trace w @ map Settled xs\<rparr>
        \<and> set xs \<union> set qs = set ps \<and> set xs \<inter> set qs = {}
        \<and> (qs = [] \<longleftrightarrow> set ps \<subseteq> set sched)"
proof (induction ps sched w arbitrary: qs rest w' rule: settle_requests.induct)
  case (1 sched w)
  then show ?case by (intro exI [of _ "[]"]) auto
next
  case (2 p ps w)
  then show ?case by (intro exI [of _ "[]"]) auto
next
  case (3 p ps r sched w)
  show ?case
  proof (cases "r \<in> set (p # ps)")
    case True
    with 3 have "settle_requests (removeAll r (p # ps)) sched (observe (Settled r) w) = (qs, rest, w')"
      by simp
    from "3.IH"(1) [OF True this] obtain xs where
      xs: "w' = (observe (Settled r) w)\<lparr>trace := trace (observe (Settled r) w) @ map Settled xs\<rparr>"
        "set xs \<union> set qs = set (p # ps) - {r}" "set xs \<inter> set qs = {}"
        "qs = [] \<longleftrightarrow> set (p # ps) - {r} \<subseteq> set sched"
      unfolding set_removeAll by blast
    have "w' = w\<lparr>trace := trace w @ map Settled (r # xs)\<rparr>"
      using xs(1) by (simp add: observe_def)
    moreover have "set (r # xs) \<union> set qs = set (p # ps)"
      using xs(2) True by auto
    moreover have "set (r # xs) \<inter> set qs = {}"
      using xs(2,3) by auto
    moreover have "qs = [] \<longleftrightarrow> set (p # ps) \<subseteq> set (r # sched)"
      using xs(4) by auto
    ultimately show ?thesis by blast
  next
    case False
    with 3 have "settle_requests (p # ps) sched w = (qs, rest, w')"
      by simp
    from "3.IH"(2) [OF False this] obtain xs where
      xs: "w' = w\<lparr>trace := trace w @ map Settled xs\<rparr>"
        "set xs \<union> set qs = set (p # ps)" "set xs \<inter> set qs = {}"
        "qs = [] \<longleftrightarrow> set (p # ps) \<subseteq> set sched"
      by blast
    have "qs = [] \<longleftrightarrow> set (p # ps) \<subseteq> set (r # sched)"
      using xs(4) False by auto
    with xs show ?thesis by blast
  qed
qed

lemma settle_requests_single:
  "settle_requests [p] sched w =
     (if p \<in> set sched
      then ([], tl (dropWhile (\<lambda>r. r \<noteq> p) sched), observe (Settled p) w)
      else ([p], [], w))"
  by (induction sched) auto

lemma allSettled_then_finished:
  assumes "set ps \<subseteq> set sched"
  shows "\<exists>xs rest. set xs = set ps
           \<and> allSettled_then ps callback sched w
               = callback rest (w\<lparr>trace := trace w @ map Settled xs\<rparr>)"
proof -
  obtain qs rest w' where run: "settle_requests ps sched w = (qs, rest, w')"
    by (cases "settle_requests ps sched w") auto
  from settle_requests_shape [OF run] assms obtain xs where
    "w' = w\<lparr>trace := trace w @ map Settled xs\<rparr>" "set xs \<union> set qs = set ps" "qs = []"
    by blast
  then show ?thesis
    using run by (auto simp add: allSettled_then_def)
qed

lemma allSettled_then_unfinished:
  assumes "\<not> set ps \<subseteq> set sched"
  shows "\<exists>xs. set xs \<subset> set ps
           \<and> allSettled_then ps callback sched w = w\<lparr>trace := trace w @ map Settled xs\<rparr>"
proof -
  obtain qs rest w' where run: "settle_requests ps sched w = (qs, rest, w')"
    by (cases "settle_requests ps sched w") auto
  from settle_requests_shape [OF run] assms obtain xs where
    xs: "w' = w\<lparr>trace := trace w @ map Settled xs\<rparr>" "set xs \<union> set qs = set ps"
      "set xs \<inter> set qs = {}" "qs \<noteq> []"
    by blast
  from xs(4) obtain q qs' where "qs = q # qs'"
    by (cases qs) auto
  moreover from this xs(2,3) have "set xs \<subset> set ps"
    by auto
  ultimately show ?thesis
    using run xs(1) by (auto simp add: allSettled_then_def)
qed

text \<open>What the callback of fetchTab does, component by component.\<close>

lemma fetchTab_then_trace:
  "trace (fetchTab_then c tab r1 r2 w) =
     trace w
     @ [case r1 of Fulfilled v \<Rightarrow> Dispatched (AddModel ''courses'' (with_id c v))
                 | Rejected e \<Rightarrow> Logged e,
        case r2 of Fulfilled v \<Rightarrow> Dispatched (AddModel tab (with_id c v))
                 | Rejected e \<Rightarrow> Logged e,
        Dispatched (if is_fulfilled r1 \<and> is_fulfilled r2
                    then FetchTabSuccess c else FetchTabFailure c)]"
  by (cases r1; cases r2) (simp_all add: fetchTab_then_def dispatch_def logError_def)

lemma fetchTab_then_logged:
  "logged (fetchTab_then c tab r1 r2 w) =
     logged w @ (case r1 of Fulfilled v \<Rightarrow> [] | Rejected e \<Rightarrow> [e])
              @ (case r2 of Fulfilled v \<Rightarrow> [] | Rejected e \<Rightarrow> [e])"
  by (cases r1; cases r2) (simp_all add: fetchTab_then_def dispatch_def logError_def)

lemma fetchTab_then_status:
  "status (fetchTab_then c tab r1 r2 w) =
     (status w)(Course c := (if is_fulfilled r1 \<and> is_fulfilled r2 then Loaded else Failed))"
  by (cases r1; cases r2) (simp_all add: fetchTab_then_def dispatch_def logError_def)

lemma fetchTab_then_models:
  "models (fetchTab_then c tab r1 r2 w) =
     (case r2 of Fulfilled v \<Rightarrow> merge tab (model_id (with_id c v)) (with_id c v)
               | Rejected e \<Rightarrow> (\<lambda>s. s))
       ((case r1 of Fulfilled v \<Rightarrow> merge ''courses'' (model_id (with_id c v)) (with_id c v)
                  | Rejected e \<Rightarrow> (\<lambda>s. s)) (models w))"
  by (cases r1; cases r2) (simp_all add: fetchTab_then_def dispatch_def logError_def)

text \<open>The two shapes of a run of fetchTab.\<close>

lemma fetchTab_body:
  "observe ThunkResolved (dispatch (FetchTabRequest c) w)
     = w\<lparr>status := (status w)(Course c := Pending),
          trace := trace w @ [Dispatched (FetchTabRequest c), ThunkResolved]\<rparr>"
  by (simp add: dispatch_def observe_def)

lemma fetchTab_finished:
  assumes "CourseHomeCourseMetadata \<in> set sched" "TabData \<in> set sched"
  shows "\<exists>xs. set xs = {CourseHomeCourseMetadata, TabData}
           \<and> fetchTab a c tab g sched w
               = fetchTab_then c tab (getCourseHomeCourseMetadata a c) (g c)
                   (w\<lparr>status := (status w)(Course c := Pending),
                      trace := trace w @ [Dispatched (FetchTabRequest c), ThunkResolved]
                                 @ map Settled xs\<rparr>)"
proof -
  let ?w2 = "observe ThunkResolved (dispatch (FetchTabRequest c) w)"
  let ?cb = "\<lambda>rest :: schedule.
     fetchTab_then c tab (getCourseHomeCourseMetadata a c) (g c)"
  have "set [CourseHomeCourseMetadata, TabData] \<subseteq> set sched"
    using assms by simp
  from allSettled_then_finished [OF this, of ?cb ?w2] obtain xs rest where
    xs: "set xs = set [CourseHomeCourseMetadata, TabData]"
      "allSettled_then [CourseHomeCourseMetadata, TabData] ?cb sched ?w2
         = ?cb rest (?w2\<lparr>trace := trace ?w2 @ map Settled xs\<rparr>)"
    by blast
  have "fetchTab a c tab g sched w
          = fetchTab_then c tab (getCourseHomeCourseMetadata a c) (g c)
              (?w2\<lparr>trace := trace ?w2 @ map Settled xs\<rparr>)"
    using xs(2) by (simp add: fetchTab_def)
  then show ?thesis
    using xs(1) by (intro exI [of _ xs]) (simp add: fetchTab_body)
qed

lemma fetchTab_unfinished:
  assumes "\<not> (CourseHomeCourseMetadata \<in> set sched \<and> TabData \<in> set sched)"
  shows "\<exists>xs. fetchTab a c tab g sched w
               = w\<lparr>status := (status w)(Course c := Pending),
                    trace := trace w @ [Dispatched (FetchTabRequest c), ThunkResolved]
                                 @ map Settled xs\<rparr>"
proof -
  let ?w2 = "observe ThunkResolved (dispatch (FetchTabRequest c) w)"
  let ?cb = "\<lambda>rest :: schedule.
     fetchTab_then c tab (getCourseHomeCourseMetadata a c) (g c)"
  have "\<not> set [CourseHomeCourseMetadata, TabData] \<subseteq> set sched"
    using assms by simp
  from allSettled_then_unfinished [OF this, of ?cb ?w2] obtain xs where
    xs: "allSettled_then [CourseHomeCourseMetadata, TabData] ?cb sched ?w2
         = ?w2\<lparr>trace := trace ?w2 @ map Settled xs\<rparr>"
    by blast
  have "fetchTab a c tab g sched w = ?w2\<lparr>trace := trace ?w2 @ map Settled xs\<rparr>"
    using xs by (simp add: fetchTab_def)
  then show ?thesis
    by (intro exI [of _ xs]) (simp add: fetchTab_body)
qed

text \<open>A finished run of fetchTab, as one equation per component of the world.\<close>

lemma fetchTab_finished_run:
  assumes "CourseHomeCourseMetadata \<in> set sched" "TabData \<in> set sched"
  shows "\<exists>xs. set xs = {CourseHomeCourseMetadata, TabData}
     \<and> new_events w (fetchTab a c tab g sched w) =
         [Dispatched (FetchTabRequest c), ThunkResolved] @ map Settled xs
         @ [case getCourseHomeCourseMetadata a c of
              Fulfilled v \<Rightarrow> Dispatched (AddModel ''courses'' (with_id c v))
            | Rejected e \<Rightarrow> Logged e,
            case g c of
              Fulfilled v \<Rightarrow> Dispatched (AddModel tab (with_id c v))
            | Rejected e \<Rightarrow> Logged e,
            Dispatched (if is_fulfilled (getCourseHomeCourseMetadata a c) \<and> is_fulfilled (g c)
                        then FetchTabSuccess c else FetchTabFailure c)]"
    and "logged (fetchTab a c tab g sched w) =
           logged w
           @ (case getCourseHomeCourseMetadata a c of Fulfilled v \<Rightarrow> [] | Rejected e \<Rightarrow> [e])
           @ (case g c of Fulfilled v \<Rightarrow> [] | Rejected e \<Rightarrow> [e])"
    and "status (fetchTab a c tab g sched w) =
           (status w)(Course c :=
              (if is_fulfilled (getCourseHomeCourseMetadata a c) \<and> is_fulfilled (g c)
               then Loaded else Failed))"
    and "models (fetchTab a c tab g sched w) =
           (case g c of
              Fulfilled v \<Rightarrow> merge tab (model_id (with_id c v)) (with_id c v)
            | Rejected e \<Rightarrow> (\<lambda>s. s))
             ((case getCourseHomeCourseMetadata a c of
                 Fulfilled v \<Rightarrow> merge ''courses'' (model_id (with_id c v)) (with_id c v)
               | Rejected e \<Rightarrow> (\<lambda>s. s)) (models w))"
proof -
  from fetchTab_finished [OF assms, of a c tab g w] obtain xs where
    xs: "set xs = {CourseHomeCourseMetadata, TabData}"
    and run: "fetchTab a c tab g sched w
               = fetchTab_then c tab (getCourseHomeCourseMetadata a c) (g c)
                   (w\<lparr>status := (status w)(Course c := Pending),
                      trace := trace w @ [Dispatched (FetchTabRequest c), ThunkResolved]
                                 @ map Settled xs\<rparr>)"
    by blast
  show "\<exists>xs. set xs = {CourseHomeCourseMetadata, TabData}
     \<and> new_events w (fetchTab a c tab g sched w) =
         [Dispatched (FetchTabRequest c), ThunkResolved] @ map Settled xs
         @ [case getCourseHomeCourseMetadata a c of
              Fulfilled v \<Rightarrow> Dispatched (AddModel ''courses'' (with_id c v))
            | Rejected e \<Rightarrow> Logged e,
            case g c of
              Fulfilled v \<Rightarrow> Dispatched (AddModel tab (with_id c v))
            | Rejected e \<Rightarrow> Logged e,
            Dispatched (if is_fulfilled (getCourseHomeCourseMetadata a c) \<and> is_fulfilled (g c)
                        then FetchTabSuccess c else FetchTabFailure c)]"
    using xs by (intro exI [of _ xs]) (simp add: run new_events_def fetchTab_then_trace)
  show "logged (fetchTab a c tab g sched w) =
           logged w
           @ (case getCourseHomeCourseMetadata a c of Fulfilled v \<Rightarrow> [] | Rejected e \<Rightarrow> [e])
           @ (case g c of Fulfilled v \<Rightarrow> [] | Rejected e \<Rightarrow> [e])"
    by (simp add: run fetchTab_then_logged)
  show "status (fetchTab a c tab g sched w) =
           (status w)(Course c :=
              (if is_fulfilled (getCourseHomeCourseMetadata a c) \<and> is_fulfilled (g c)
               then Loaded else Failed))"
    by (simp add: run fetchTab_then_status)
  show "models (fetchTab a c tab g sched w) =
           (case g c of
              Fulfilled v \<Rightarrow> merge tab (model_id (with_id c v)) (with_id c v)
            | Rejected e \<Rightarrow> (\<lambda>s. s))
             ((case getCourseHomeCourseMetadata a c of
                 Fulfilled v \<Rightarrow> merge ''courses'' (model_id (with_id c v)) (with_id c v)
               | Rejected e \<Rightarrow> (\<lambda>s. s)) (models w))"
    by (simp add: run fetchTab_then_models)
qed

lemma fetchTab_unfinished_run:
  assumes "\<not> (CourseHomeCourseMetadata \<in> set sched \<and> TabData \<in> set sched)"
  shows "\<exists>xs. new_events w (fetchTab a c tab g sched w) =
           [Dispatched (FetchTabRequest c), ThunkResolved] @ map Settled xs"
    and "logged (fetchTab a c tab g sched w) = logged w"
    and "status (fetchTab a c tab g sched w) = (status w)(Course c := Pending)"
    and "models (fetchTab a c tab g sched w) = models w"
proof -
  from fetchTab_unfinished [OF assms, of a c tab g w] obtain xs where
    run: "fetchTab a c tab g sched w
               = w\<lparr>status := (status w)(Course c := Pending),
                    trace := trace w @ [Dispatched (FetchTabRequest c), ThunkResolved]
                                 @ map Settled xs\<rparr>"
    by blast
  show "\<exists>xs. new_events w (fetchTab a c tab g sched w) =
           [Dispatched (FetchTabRequest c), ThunkResolved] @ map Settled xs"
    by (intro exI [of _ xs]) (simp add: run new_events_def)
  show "logged (fetchTab a c tab g sched w) = logged w"
    by (simp add: run)
  show "status (fetchTab a c tab g sched w) = (status w)(Course c := Pending)"
    by (simp add: run)
  show "models (fetchTab a c tab g sched w) = models w"
    by (simp add: run)
qed

lemma terminal_transitions_settled [simp]:
  "terminal_transitions (map Settled xs) = []"
  by (induction xs) (simp_all add: terminal_transitions_def List.map_filter_simps)

lemma terminal_transitions_append:
  "terminal_transitions (xs @ ys) = terminal_transitions xs @ terminal_transitions ys"
  by (simp add: terminal_transitions_def List.map_filter_def)

lemma terminal_transitions_Cons:
  "terminal_transitions (ev # evs) =
     (case transition ev of
        None \<Rightarrow> terminal_transitions evs
      | Some (r, st) \<Rightarrow> (if is_terminal st then (r, st) # terminal_transitions evs
                          else terminal_transitions evs))"
  by (simp add: terminal_transitions_def List.map_filter_simps split: option.splits)

lemma terminal_transitions_Nil [simp]: "terminal_transitions [] = []"
  by (simp add: terminal_transitions_def List.map_filter_simps)

text \<open>
  C1. When a fetch has finished (both requests have settled) and either request was
  rejected with error \<open>e\<close>, the last event of the run is the dispatch of
  \<^verbatim>\<open>fetchTabFailure\<close>, it is the run's only terminal status transition, the course's
  status is \<open>Failed\<close>, and \<^verbatim>\<open>logError\<close> was called with \<open>e\<close>. Nothing is assumed
  about the other request.
\<close>

theorem fetchTab_failed_on_any_rejection:
  assumes "CourseHomeCourseMetadata \<in> set sched" and "TabData \<in> set sched"
    and "getCourseHomeCourseMetadata a c = Rejected e \<or> getTabData c = Rejected e"
  shows "last (new_events w (fetchTab a c tab getTabData sched w)) = Dispatched (FetchTabFailure c)
    \<and> terminal_transitions (new_events w (fetchTab a c tab getTabData sched w)) = [(Course c, Failed)]
    \<and> status (fetchTab a c tab getTabData sched w) (Course c) = Failed
    \<and> Logged e \<in> set (new_events w (fetchTab a c tab getTabData sched w))
    \<and> e \<in> set (logged (fetchTab a c tab getTabData sched w))"
proof -
  let ?w' = "fetchTab a c tab getTabData sched w"
  let ?r1 = "getCourseHomeCourseMetadata a c" and ?r2 = "getTabData c"
  have not_both: "\<not> (is_fulfilled ?r1 \<and> is_fulfilled ?r2)"
    using assms(3) by auto
  from fetchTab_finished_run(1) [OF assms(1,2), of w a c tab getTabData] obtain xs where
    evs: "new_events w ?w' =
         [Dispatched (FetchTabRequest c), ThunkResolved] @ map Settled xs
         @ [case ?r1 of
              Fulfilled v \<Rightarrow> Dispatched (AddModel ''courses'' (with_id c v))
            | Rejected e \<Rightarrow> Logged e,
            case ?r2 of
              Fulfilled v \<Rightarrow> Dispatched (AddModel tab (with_id c v))
            | Rejected e \<Rightarrow> Logged e,
            Dispatched (FetchTabFailure c)]"
    using not_both by auto
  have "last (new_events w ?w') = Dispatched (FetchTabFailure c)"
    by (simp add: evs)
  moreover have "terminal_transitions (new_events w ?w') = [(Course c, Failed)]"
    by (cases ?r1; cases ?r2)
       (simp_all add: evs terminal_transitions_append terminal_transitions_Cons)
  moreover have "status ?w' (Course c) = Failed"
    using not_both by (simp add: fetchTab_finished_run(3) [OF assms(1,2)])
  moreover have "Logged e \<in> set (new_events w ?w')"
    using assms(3) by (auto simp add: evs)
  moreover have "e \<in> set (logged ?w')"
    using assms(3) by (auto simp add: fetchTab_finished_run(2) [OF assms(1,2)])
  ultimately show ?thesis by blast
qed

theorem fetchTab_failed_on_any_rejection_witness:
  "CourseHomeCourseMetadata \<in> set [TabData, CourseHomeCourseMetadata]
   \<and> TabData \<in> set [TabData, CourseHomeCourseMetadata]
   \<and> getDatesTabData sample_api ''course-v1'' = Rejected NetworkFailure
   \<and> status (fetchTab sample_api ''course-v1'' ''dates'' (getDatesTabData sample_api)
               [TabData, CourseHomeCourseMetadata] initial_world) (Course ''course-v1'') = Failed
   \<and> NetworkFailure \<in> set (logged (fetchTab sample_api ''course-v1'' ''dates''
               (getDatesTabData sample_api) [TabData, CourseHomeCourseMetadata] initial_world))"
proof -
  have h1: "CourseHomeCourseMetadata \<in> set [TabData, CourseHomeCourseMetadata]"
    and h2: "TabData \<in> set [TabData, CourseHomeCourseMetadata]"
    by simp_all
  have h3: "getCourseHomeCourseMetadata sample_api ''course-v1'' = Rejected NetworkFailure
            \<or> getDatesTabData sample_api ''course-v1'' = Rejected NetworkFailure"
    by (simp add: sample_api_def)
  from fetchTab_failed_on_any_rejection
         [where a = sample_api and c = "''course-v1''" and e = NetworkFailure
            and getTabData = "getDatesTabData sample_api" and w = initial_world
            and tab = "''dates''", OF h1 h2 h3]
  show ?thesis
    using h1 h2 by (simp add: sample_api_def)
qed

lemma pending_transitions_settled [simp]:
  "pending_transitions (map Settled xs) = []"
  by (induction xs) (simp_all add: pending_transitions_def List.map_filter_simps)

lemma pending_transitions_append:
  "pending_transitions (xs @ ys) = pending_transitions xs @ pending_transitions ys"
  by (simp add: pending_transitions_def List.map_filter_def)

lemma pending_transitions_Cons:
  "pending_transitions (ev # evs) =
     (case transition ev of
        None \<Rightarrow> pending_transitions evs
      | Some (r, st) \<Rightarrow> (if st = Pending then (r, st) # pending_transitions evs
                          else pending_transitions evs))"
  by (simp add: pending_transitions_def List.map_filter_simps split: option.splits)

lemma pending_transitions_Nil [simp]: "pending_transitions [] = []"
  by (simp add: pending_transitions_def List.map_filter_simps)

lemma transition_result_event [simp]:
  "transition (case r of Fulfilled v \<Rightarrow> Dispatched (AddModel t (f v)) | Rejected e \<Rightarrow> Logged e)
     = None"
  by (cases r) simp_all

text \<open>
  C2. In every run of fetchTab the first event is the dispatch of \<^verbatim>\<open>fetchTabRequest\<close>
  (so the pending transition precedes every settlement), and no later event is a
  pending transition. If both requests settle, the run ends with its one terminal
  transition, to \<open>Loaded\<close> or \<open>Failed\<close>; everything before it contains the settlement of
  both requests and no terminal transition; and the course's status is that terminal
  status. If a request never settles there is no terminal transition at all.
\<close>

theorem fetchTab_status_transitions:
  "(\<exists>rest. new_events w (fetchTab a c tab getTabData sched w)
              = Dispatched (FetchTabRequest c) # rest
         \<and> pending_transitions rest = [])
   \<and> (CourseHomeCourseMetadata \<in> set sched \<and> TabData \<in> set sched \<longrightarrow>
        (\<exists>before ev st.
            new_events w (fetchTab a c tab getTabData sched w) = before @ [ev]
          \<and> transition ev = Some (Course c, st) \<and> is_terminal st
          \<and> terminal_transitions before = []
          \<and> Settled CourseHomeCourseMetadata \<in> set before
          \<and> Settled TabData \<in> set before
          \<and> terminal_transitions (new_events w (fetchTab a c tab getTabData sched w))
              = [(Course c, st)]
          \<and> status (fetchTab a c tab getTabData sched w) (Course c) = st))
   \<and> (\<not> (CourseHomeCourseMetadata \<in> set sched \<and> TabData \<in> set sched) \<longrightarrow>
        terminal_transitions (new_events w (fetchTab a c tab getTabData sched w)) = [])"
proof (cases "CourseHomeCourseMetadata \<in> set sched \<and> TabData \<in> set sched")
  case True
  let ?w' = "fetchTab a c tab getTabData sched w"
  let ?r1 = "getCourseHomeCourseMetadata a c" and ?r2 = "getTabData c"
  let ?e1 = "case ?r1 of
               Fulfilled v \<Rightarrow> Dispatched (AddModel ''courses'' (with_id c v))
             | Rejected e \<Rightarrow> Logged e"
  let ?e2 = "case ?r2 of
               Fulfilled v \<Rightarrow> Dispatched (AddModel tab (with_id c v))
             | Rejected e \<Rightarrow> Logged e"
  let ?st = "if is_fulfilled ?r1 \<and> is_fulfilled ?r2 then Loaded else Failed"
  let ?ev = "Dispatched (if is_fulfilled ?r1 \<and> is_fulfilled ?r2
                         then FetchTabSuccess c else FetchTabFailure c)"
  from True have fin: "CourseHomeCourseMetadata \<in> set sched" "TabData \<in> set sched"
    by simp_all
  from fetchTab_finished_run(1) [OF fin, of w a c tab getTabData] obtain xs where
    xs: "set xs = {CourseHomeCourseMetadata, TabData}"
    and evs: "new_events w ?w' =
         [Dispatched (FetchTabRequest c), ThunkResolved] @ map Settled xs @ [?e1, ?e2, ?ev]"
    by blast
  let ?before = "[Dispatched (FetchTabRequest c), ThunkResolved] @ map Settled xs @ [?e1, ?e2]"
  have first: "\<exists>rest. new_events w ?w' = Dispatched (FetchTabRequest c) # rest
                 \<and> pending_transitions rest = []"
    by (simp add: evs pending_transitions_append pending_transitions_Cons)
  have tb: "terminal_transitions ?before = []"
    by (simp add: terminal_transitions_append terminal_transitions_Cons)
  have tev: "transition ?ev = Some (Course c, ?st)" "is_terminal ?st"
    by simp_all
  have "new_events w ?w' = ?before @ [?ev]"
    by (simp add: evs)
  moreover have "Settled CourseHomeCourseMetadata \<in> set ?before" "Settled TabData \<in> set ?before"
    using xs by auto
  moreover have "terminal_transitions (new_events w ?w') = [(Course c, ?st)]"
    by (simp add: evs terminal_transitions_append terminal_transitions_Cons)
  moreover have "status ?w' (Course c) = ?st"
    by (simp add: fetchTab_finished_run(3) [OF fin])
  ultimately have "\<exists>before ev st.
            new_events w ?w' = before @ [ev]
          \<and> transition ev = Some (Course c, st) \<and> is_terminal st
          \<and> terminal_transitions before = []
          \<and> Settled CourseHomeCourseMetadata \<in> set before
          \<and> Settled TabData \<in> set before
          \<and> terminal_transitions (new_events w ?w') = [(Course c, st)]
          \<and> status ?w' (Course c) = st"
    using tb tev by blast
  with first True show ?thesis by blast
next
  case False
  let ?w' = "fetchTab a c tab getTabData sched w"
  from fetchTab_unfinished_run(1) [OF False, of w a c tab getTabData] obtain xs where
    evs: "new_events w ?w' = [Dispatched (FetchTabRequest c), ThunkResolved] @ map Settled xs"
    by blast
  have "\<exists>rest. new_events w ?w' = Dispatched (FetchTabRequest c) # rest
                 \<and> pending_transitions rest = []"
    by (simp add: evs pending_transitions_Cons)
  moreover have "terminal_transitions (new_events w ?w') = []"
    by (simp add: evs terminal_transitions_Cons)
  ultimately show ?thesis
    using False by blast
qed

theorem fetchTab_status_transitions_witness:
  "CourseHomeCourseMetadata \<in> set [TabData, CourseHomeCourseMetadata]
   \<and> TabData \<in> set [TabData, CourseHomeCourseMetadata]
   \<and> (\<exists>st. is_terminal st
         \<and> terminal_transitions (new_events initial_world
              (fetchTab sample_api ''course-v1'' ''outline'' (getOutlineTabData sample_api)
                 [TabData, CourseHomeCourseMetadata] initial_world))
             = [(Course ''course-v1'', st)]
         \<and> status (fetchTab sample_api ''course-v1'' ''outline'' (getOutlineTabData sample_api)
                 [TabData, CourseHomeCourseMetadata] initial_world) (Course ''course-v1'') = st)"
proof -
  have h: "CourseHomeCourseMetadata \<in> set [TabData, CourseHomeCourseMetadata]
           \<and> TabData \<in> set [TabData, CourseHomeCourseMetadata]"
    by simp
  from fetchTab_status_transitions
         [where a = sample_api and c = "''course-v1''" and tab = "''outline''"
            and getTabData = "getOutlineTabData sample_api" and w = initial_world
            and sched = "[TabData, CourseHomeCourseMetadata]"] h
  show ?thesis by blast
qed

text \<open>The record that \<^verbatim>\<open>{ id: courseId, ...value }\<close> denotes, field by field.\<close>

lemma with_id_fields:
  "with_id c v f = (case v f of Some x \<Rightarrow> Some x
                    | None \<Rightarrow> (if f = ''id'' then Some (JStr c) else None))"
  by (simp add: with_id_def map_add_def split: option.splits)

lemma model_id_with_id:
  "model_id (with_id c v) = (case v ''id'' of None \<Rightarrow> JStr c | Some x \<Rightarrow> x)"
  by (simp add: model_id_def with_id_fields split: option.splits)

text \<open>What one \<^verbatim>\<open>addModel\<close> of such a record leaves in the store.\<close>

lemma addModel_with_id_stored:
  fixes c :: string and v :: model
  defines "k \<equiv> (case v ''id'' of None \<Rightarrow> JStr c | Some x \<Rightarrow> x)"
  shows "(\<exists>r. get t k (merge t (model_id (with_id c v)) (with_id c v) s) = Some r
            \<and> (\<forall>f x. v f = Some x \<longrightarrow> r f = Some x)
            \<and> r ''id'' = Some k
            \<and> (\<forall>f. f \<noteq> ''id'' \<and> v f = None \<longrightarrow>
                  r f = (case get t k s of None \<Rightarrow> None | Some old \<Rightarrow> old f)))
       \<and> (\<forall>t' i'. (t', i') \<noteq> (t, k) \<longrightarrow>
             get t' i' (merge t (model_id (with_id c v)) (with_id c v) s) = get t' i' s)"
proof -
  have k: "model_id (with_id c v) = k"
    by (simp add: model_id_with_id k_def)
  have "get t k (merge t k (with_id c v) s)
          = Some (case get t k s of None \<Rightarrow> with_id c v | Some old \<Rightarrow> old ++ with_id c v)"
    by (rule get_merge_same)
  moreover have "\<forall>f x. v f = Some x \<longrightarrow>
      (case get t k s of None \<Rightarrow> with_id c v | Some old \<Rightarrow> old ++ with_id c v) f = Some x"
    by (simp add: with_id_fields map_add_def split: option.splits)
  moreover have
    "(case get t k s of None \<Rightarrow> with_id c v | Some old \<Rightarrow> old ++ with_id c v) ''id'' = Some k"
    by (simp add: with_id_fields map_add_def k_def split: option.splits)
  moreover have "\<forall>f. f \<noteq> ''id'' \<and> v f = None \<longrightarrow>
      (case get t k s of None \<Rightarrow> with_id c v | Some old \<Rightarrow> old ++ with_id c v) f
        = (case get t k s of None \<Rightarrow> None | Some old \<Rightarrow> old f)"
    by (simp add: with_id_fields map_add_def split: option.splits)
  moreover have "\<forall>t' i'. (t', i') \<noteq> (t, k) \<longrightarrow>
             get t' i' (merge t k (with_id c v) s) = get t' i' s"
    by (simp add: get_merge_other)
  ultimately show ?thesis
    unfolding k by blast
qed

text \<open>
  C4. In a finished fetch where one request fulfilled with payload \<open>v\<close> and the other
  was rejected with \<open>e\<close>: the run's only store write is the \<^verbatim>\<open>addModel\<close> of the record
  \<^verbatim>\<open>{ id: courseId, ...v }\<close> (under \<open>courses\<close> for the metadata, under the tab's type
  for the tab data). Afterwards the store holds, under that type and the record's id
  (the payload's own \<open>id\<close> if it has one, else the course id), a record with every
  field of \<open>v\<close> at \<open>v\<close>'s value and with that id; the other fields of that record are
  as before, and so is every other record, so the rejected request wrote nothing.
  \<^verbatim>\<open>logError\<close> was called exactly once, with \<open>e\<close>.
\<close>

theorem fetchTab_partial_failure:
  assumes "CourseHomeCourseMetadata \<in> set sched" and "TabData \<in> set sched"
  shows "(getCourseHomeCourseMetadata a c = Fulfilled v \<and> getTabData c = Rejected e \<longrightarrow>
            models (fetchTab a c tab getTabData sched w)
              = merge ''courses'' (model_id (with_id c v)) (with_id c v) (models w)
          \<and> filter is_store_write (new_events w (fetchTab a c tab getTabData sched w))
              = [Dispatched (AddModel ''courses'' ([''id'' \<mapsto> JStr c] ++ v))]
          \<and> logged (fetchTab a c tab getTabData sched w) = logged w @ [e]
          \<and> (\<exists>r. get ''courses'' (case v ''id'' of None \<Rightarrow> JStr c | Some x \<Rightarrow> x)
                     (models (fetchTab a c tab getTabData sched w)) = Some r
                \<and> (\<forall>f x. v f = Some x \<longrightarrow> r f = Some x)
                \<and> r ''id'' = Some (case v ''id'' of None \<Rightarrow> JStr c | Some x \<Rightarrow> x)
                \<and> (\<forall>f. f \<noteq> ''id'' \<and> v f = None \<longrightarrow>
                      r f = (case get ''courses''
                                    (case v ''id'' of None \<Rightarrow> JStr c | Some x \<Rightarrow> x)
                                    (models w) of
                               None \<Rightarrow> None | Some old \<Rightarrow> old f)))
          \<and> (\<forall>t' i'. (t', i') \<noteq> (''courses'', case v ''id'' of None \<Rightarrow> JStr c | Some x \<Rightarrow> x)
                \<longrightarrow> get t' i' (models (fetchTab a c tab getTabData sched w))
                      = get t' i' (models w)))
       \<and> (getCourseHomeCourseMetadata a c = Rejected e \<and> getTabData c = Fulfilled v \<longrightarrow>
            models (fetchTab a c tab getTabData sched w)
              = merge tab (model_id (with_id c v)) (with_id c v) (models w)
          \<and> filter is_store_write (new_events w (fetchTab a c tab getTabData sched w))
              = [Dispatched (AddModel tab ([''id'' \<mapsto> JStr c] ++ v))]
          \<and> logged (fetchTab a c tab getTabData sched w) = logged w @ [e]
          \<and> (\<exists>r. get tab (case v ''id'' of None \<Rightarrow> JStr c | Some x \<Rightarrow> x)
                     (models (fetchTab a c tab getTabData sched w)) = Some r
                \<and> (\<forall>f x. v f = Some x \<longrightarrow> r f = Some x)
                \<and> r ''id'' = Some (case v ''id'' of None \<Rightarrow> JStr c | Some x \<Rightarrow> x)
                \<and> (\<forall>f. f \<noteq> ''id'' \<and> v f = None \<longrightarrow>
                      r f = (case get tab
                                    (case v ''id'' of None \<Rightarrow> JStr c | Some x \<Rightarrow> x)
                                    (models w) of
                               None \<Rightarrow> None | Some old \<Rightarrow> old f)))
          \<and> (\<forall>t' i'. (t', i') \<noteq> (tab, case v ''id'' of None \<Rightarrow> JStr c | Some x \<Rightarrow> x)
                \<longrightarrow> get t' i' (models (fetchTab a c tab getTabData sched w))
                      = get t' i' (models w)))"
proof -
  let ?w' = "fetchTab a c tab getTabData sched w"
  from fetchTab_finished_run(1) [OF assms, of w a c tab getTabData] obtain xs where
    evs: "new_events w ?w' =
         [Dispatched (FetchTabRequest c), ThunkResolved] @ map Settled xs
         @ [case getCourseHomeCourseMetadata a c of
              Fulfilled v \<Rightarrow> Dispatched (AddModel ''courses'' (with_id c v))
            | Rejected e \<Rightarrow> Logged e,
            case getTabData c of
              Fulfilled v \<Rightarrow> Dispatched (AddModel tab (with_id c v))
            | Rejected e \<Rightarrow> Logged e,
            Dispatched (if is_fulfilled (getCourseHomeCourseMetadata a c)
                           \<and> is_fulfilled (getTabData c)
                        then FetchTabSuccess c else FetchTabFailure c)]"
    by blast
  have no_write: "filter is_store_write (map Settled xs) = []" for xs
    by (induction xs) simp_all
  have lit: "with_id c v = [''id'' \<mapsto> JStr c] ++ v"
    by (simp add: with_id_def)
  show ?thesis
  proof (intro conjI impI)
    assume h: "getCourseHomeCourseMetadata a c = Fulfilled v \<and> getTabData c = Rejected e"
    have m: "models ?w' = merge ''courses'' (model_id (with_id c v)) (with_id c v) (models w)"
      using h by (simp add: fetchTab_finished_run(4) [OF assms])
    show "models ?w' = merge ''courses'' (model_id (with_id c v)) (with_id c v) (models w)"
      by (rule m)
    show "filter is_store_write (new_events w ?w')
            = [Dispatched (AddModel ''courses'' ([''id'' \<mapsto> JStr c] ++ v))]"
      using h by (simp add: evs no_write lit)
    show "logged ?w' = logged w @ [e]"
      using h by (simp add: fetchTab_finished_run(2) [OF assms])
    show "\<exists>r. get ''courses'' (case v ''id'' of None \<Rightarrow> JStr c | Some x \<Rightarrow> x)
                     (models ?w') = Some r
                \<and> (\<forall>f x. v f = Some x \<longrightarrow> r f = Some x)
                \<and> r ''id'' = Some (case v ''id'' of None \<Rightarrow> JStr c | Some x \<Rightarrow> x)
                \<and> (\<forall>f. f \<noteq> ''id'' \<and> v f = None \<longrightarrow>
                      r f = (case get ''courses''
                                    (case v ''id'' of None \<Rightarrow> JStr c | Some x \<Rightarrow> x)
                                    (models w) of
                               None \<Rightarrow> None | Some old \<Rightarrow> old f))"
      unfolding m
      by (rule addModel_with_id_stored
            [where t = "''courses''" and v = v and c = c and s = "models w", THEN conjunct1])
    show "\<forall>t' i'. (t', i') \<noteq> (''courses'', case v ''id'' of None \<Rightarrow> JStr c | Some x \<Rightarrow> x)
                \<longrightarrow> get t' i' (models ?w') = get t' i' (models w)"
      unfolding m
      by (rule addModel_with_id_stored
            [where t = "''courses''" and v = v and c = c and s = "models w", THEN conjunct2])
  next
    assume h: "getCourseHomeCourseMetadata a c = Rejected e \<and> getTabData c = Fulfilled v"
    have m: "models ?w' = merge tab (model_id (with_id c v)) (with_id c v) (models w)"
      using h by (simp add: fetchTab_finished_run(4) [OF assms])
    show "models ?w' = merge tab (model_id (with_id c v)) (with_id c v) (models w)"
      by (rule m)
    show "filter is_store_write (new_events w ?w')
            = [Dispatched (AddModel tab ([''id'' \<mapsto> JStr c] ++ v))]"
      using h by (simp add: evs no_write lit)
    show "logged ?w' = logged w @ [e]"
      using h by (simp add: fetchTab_finished_run(2) [OF assms])
    show "\<exists>r. get tab (case v ''id'' of None \<Rightarrow> JStr c | Some x \<Rightarrow> x)
                     (models ?w') = Some r
                \<and> (\<forall>f x. v f = Some x \<longrightarrow> r f = Some x)
                \<and> r ''id'' = Some (case v ''id'' of None \<Rightarrow> JStr c | Some x \<Rightarrow> x)
                \<and> (\<forall>f. f \<noteq> ''id'' \<and> v f = None \<longrightarrow>
                      r f = (case get tab
                                    (case v ''id'' of None \<Rightarrow> JStr c | Some x \<Rightarrow> x)
                                    (models w) of
                               None \<Rightarrow> None | Some old \<Rightarrow> old f))"
      unfolding m
      by (rule addModel_with_id_stored
            [where t = tab and v = v and c = c and s = "models w", THEN conjunct1])
    show "\<forall>t' i'. (t', i') \<noteq> (tab, case v ''id'' of None \<Rightarrow> JStr c | Some x \<Rightarrow> x)
                \<longrightarrow> get t' i' (models ?w') = get t' i' (models w)"
      unfolding m
      by (rule addModel_with_id_stored
            [where t = tab and v = v and c = c and s = "models w", THEN conjunct2])
  qed
qed

theorem fetchTab_partial_failure_witness:
  "CourseHomeCourseMetadata \<in> set [TabData, CourseHomeCourseMetadata]
   \<and> TabData \<in> set [TabData, CourseHomeCourseMetadata]
   \<and> getCourseHomeCourseMetadata sample_api ''course-v1'' = Fulfilled [''title'' \<mapsto> JStr ''Demo'']
   \<and> getDatesTabData sample_api ''course-v1'' = Rejected NetworkFailure
   \<and> (\<exists>r. get ''courses'' (JStr ''course-v1'')
              (models (fetchTab sample_api ''course-v1'' ''dates'' (getDatesTabData sample_api)
                 [TabData, CourseHomeCourseMetadata] initial_world)) = Some r
         \<and> r ''title'' = Some (JStr ''Demo'')
         \<and> r ''id'' = Some (JStr ''course-v1''))
   \<and> get ''dates'' (JStr ''course-v1'')
        (models (fetchTab sample_api ''course-v1'' ''dates'' (getDatesTabData sample_api)
           [TabData, CourseHomeCourseMetadata] initial_world)) = None
   \<and> filter is_store_write (new_events initial_world
        (fetchTab sample_api ''course-v1'' ''dates'' (getDatesTabData sample_api)
           [TabData, CourseHomeCourseMetadata] initial_world))
       = [Dispatched (AddModel ''courses''
            [''id'' \<mapsto> JStr ''course-v1'', ''title'' \<mapsto> JStr ''Demo''])]
   \<and> logged (fetchTab sample_api ''course-v1'' ''dates'' (getDatesTabData sample_api)
               [TabData, CourseHomeCourseMetadata] initial_world) = [NetworkFailure]"
proof -
  let ?w' = "fetchTab sample_api ''course-v1'' ''dates'' (getDatesTabData sample_api)
               [TabData, CourseHomeCourseMetadata] initial_world"
  let ?v = "[''title'' \<mapsto> JStr ''Demo'']"
  have h1: "CourseHomeCourseMetadata \<in> set [TabData, CourseHomeCourseMetadata]"
    and h2: "TabData \<in> set [TabData, CourseHomeCourseMetadata]"
    by simp_all
  have h3: "getCourseHomeCourseMetadata sample_api ''course-v1'' = Fulfilled ?v"
    and h4: "getDatesTabData sample_api ''course-v1'' = Rejected NetworkFailure"
    by (simp_all add: sample_api_def)
  have h5: "logged initial_world = []" and h6: "get t i (models initial_world) = None" for t i
    by (simp_all add: initial_world_def get_def)
  have key: "(case ?v ''id'' of None \<Rightarrow> JStr ''course-v1'' | Some x \<Rightarrow> x) = JStr ''course-v1''"
    by simp
  have lit: "[''id'' \<mapsto> JStr ''course-v1''] ++ ?v
               = [''id'' \<mapsto> JStr ''course-v1'', ''title'' \<mapsto> JStr ''Demo'']"
    by simp
  note inst = fetchTab_partial_failure
         [where a = sample_api and c = "''course-v1''" and tab = "''dates''"
            and getTabData = "getDatesTabData sample_api" and w = initial_world
            and v = ?v and e = NetworkFailure, OF h1 h2, THEN conjunct1, rule_format,
          OF conjI [OF h3 h4], unfolded key lit h5 h6]
  note writes = inst [THEN conjunct2, THEN conjunct1]
  note lg = inst [THEN conjunct2, THEN conjunct2, THEN conjunct1]
  note rec = inst [THEN conjunct2, THEN conjunct2, THEN conjunct2, THEN conjunct1]
  note others = inst [THEN conjunct2, THEN conjunct2, THEN conjunct2, THEN conjunct2]
  from rec obtain r where
    r: "get ''courses'' (JStr ''course-v1'') (models ?w') = Some r"
      "\<forall>f x. ?v f = Some x \<longrightarrow> r f = Some x" "r ''id'' = Some (JStr ''course-v1'')"
    by (elim exE conjE)
  from r(2) [rule_format, of "''title''" "JStr ''Demo''"]
  have "r ''title'' = Some (JStr ''Demo'')"
    by simp
  with r(1,3) have stored: "\<exists>r. get ''courses'' (JStr ''course-v1'') (models ?w') = Some r
         \<and> r ''title'' = Some (JStr ''Demo'') \<and> r ''id'' = Some (JStr ''course-v1'')"
    by (intro exI [of _ r]) simp
  from others [rule_format, of "''dates''" "JStr ''course-v1''"]
  have untouched: "get ''dates'' (JStr ''course-v1'') (models ?w') = None"
    by simp
  from lg have lg': "logged ?w' = [NetworkFailure]"
    by simp
  from h1 h2 h3 h4 stored untouched writes lg' show ?thesis
    by (intro conjI)
qed

text \<open>
  C9. In every run of fetchTab the new events start with the dispatch of
  \<^verbatim>\<open>fetchTabRequest\<close> followed at once by the resolution of the thunk's promise; every
  settlement, every store write, every \<^verbatim>\<open>logError\<close> call and every terminal transition
  of the run comes after that, and the promise does not settle a second time. When
  both requests settle, the settlements and the terminal dispatch are indeed there,
  after the resolution.
\<close>

theorem fetchTab_resolves_before_settlement:
  "\<exists>rest. new_events w (fetchTab a c tab getTabData sched w)
            = [Dispatched (FetchTabRequest c), ThunkResolved] @ rest
     \<and> ThunkResolved \<notin> set rest
     \<and> (\<forall>e. ThunkRejected e \<notin> set rest)
     \<and> (CourseHomeCourseMetadata \<in> set sched \<and> TabData \<in> set sched \<longrightarrow>
          Settled CourseHomeCourseMetadata \<in> set rest
        \<and> Settled TabData \<in> set rest
        \<and> length (terminal_transitions rest) = 1)"
proof (cases "CourseHomeCourseMetadata \<in> set sched \<and> TabData \<in> set sched")
  case True
  let ?w' = "fetchTab a c tab getTabData sched w"
  let ?r1 = "getCourseHomeCourseMetadata a c" and ?r2 = "getTabData c"
  from True have fin: "CourseHomeCourseMetadata \<in> set sched" "TabData \<in> set sched"
    by simp_all
  from fetchTab_finished_run(1) [OF fin, of w a c tab getTabData] obtain xs where
    xs: "set xs = {CourseHomeCourseMetadata, TabData}"
    and evs: "new_events w ?w' =
         [Dispatched (FetchTabRequest c), ThunkResolved] @ map Settled xs
         @ [case ?r1 of
              Fulfilled v \<Rightarrow> Dispatched (AddModel ''courses'' (with_id c v))
            | Rejected e \<Rightarrow> Logged e,
            case ?r2 of
              Fulfilled v \<Rightarrow> Dispatched (AddModel tab (with_id c v))
            | Rejected e \<Rightarrow> Logged e,
            Dispatched (if is_fulfilled ?r1 \<and> is_fulfilled ?r2
                        then FetchTabSuccess c else FetchTabFailure c)]"
    by blast
  show ?thesis
    using xs
    by (cases ?r1; cases ?r2)
       (auto simp add: evs terminal_transitions_append terminal_transitions_Cons)
next
  case False
  from fetchTab_unfinished_run(1) [OF False, of w a c tab getTabData] obtain xs where
    evs: "new_events w (fetchTab a c tab getTabData sched w)
            = [Dispatched (FetchTabRequest c), ThunkResolved] @ map Settled xs"
    by blast
  show ?thesis
    using False by (auto simp add: evs)
qed

theorem fetchTab_resolves_before_settlement_witness:
  "CourseHomeCourseMetadata \<in> set [TabData, CourseHomeCourseMetadata]
   \<and> TabData \<in> set [TabData, CourseHomeCourseMetadata]
   \<and> (\<exists>rest. new_events initial_world
                (fetchTab sample_api ''course-v1'' ''dates'' (getDatesTabData sample_api)
                   [TabData, CourseHomeCourseMetadata] initial_world)
              = [Dispatched (FetchTabRequest ''course-v1''), ThunkResolved] @ rest
         \<and> Settled CourseHomeCourseMetadata \<in> set rest
         \<and> Settled TabData \<in> set rest
         \<and> length (terminal_transitions rest) = 1)"
proof -
  have h: "CourseHomeCourseMetadata \<in> set [TabData, CourseHomeCourseMetadata]
           \<and> TabData \<in> set [TabData, CourseHomeCourseMetadata]"
    by simp
  from fetchTab_resolves_before_settlement
         [where a = sample_api and c = "''course-v1''" and tab = "''dates''"
            and getTabData = "getDatesTabData sample_api" and w = initial_world
            and sched = "[TabData, CourseHomeCourseMetadata]"] h
  show ?thesis by blast
qed

text \<open>The three shapes of a run of resetDeadlines.\<close>

lemma resetDeadlines_run:
  "resetDeadlines a c g sched w =
     (if CourseDeadlines \<in> set sched
      then (case updateCourseDeadlines a c of
              Fulfilled v \<Rightarrow>
                g c (tl (dropWhile (\<lambda>r. r \<noteq> CourseDeadlines) sched))
                  (w\<lparr>trace := trace w @ [ThunkResolved, Settled CourseDeadlines]\<rparr>)
            | Rejected e \<Rightarrow>
                w\<lparr>trace := trace w @ [ThunkResolved, Settled CourseDeadlines,
                                       UnhandledRejection e]\<rparr>)
      else w\<lparr>trace := trace w @ [ThunkResolved]\<rparr>)"
  by (simp add: resetDeadlines_def promise_then_def settle_requests_single observe_def
           split: settled.splits)

text \<open>
  C10. When \<^verbatim>\<open>updateCourseDeadlines\<close> fulfills (and the request settles), the run of
  \<^verbatim>\<open>resetDeadlines\<close> is the run of the thunk \<open>getTabData courseId\<close> started right after
  the settlement. When it is rejected, the store, the statuses and the error log are
  what they were, the only events are the thunk's own resolution, the settlement and
  the unhandled rejection, and the result is the same whatever \<open>getTabData\<close> is, so it
  was not called.
\<close>

theorem resetDeadlines_refetches_only_on_success:
  "(CourseDeadlines \<in> set sched \<and> updateCourseDeadlines a c = Fulfilled v \<longrightarrow>
      resetDeadlines a c getTabData sched w
        = getTabData c (tl (dropWhile (\<lambda>r. r \<noteq> CourseDeadlines) sched))
            (w\<lparr>trace := trace w @ [ThunkResolved, Settled CourseDeadlines]\<rparr>))
   \<and> (updateCourseDeadlines a c = Rejected e \<longrightarrow>
        models (resetDeadlines a c getTabData sched w) = models w
      \<and> status (resetDeadlines a c getTabData sched w) = status w
      \<and> logged (resetDeadlines a c getTabData sched w) = logged w
      \<and> new_events w (resetDeadlines a c getTabData sched w)
          = (if CourseDeadlines \<in> set sched
             then [ThunkResolved, Settled CourseDeadlines, UnhandledRejection e]
             else [ThunkResolved])
      \<and> (\<forall>other. resetDeadlines a c other sched w = resetDeadlines a c getTabData sched w))
   \<and> (CourseDeadlines \<notin> set sched \<longrightarrow>
        resetDeadlines a c getTabData sched w = w\<lparr>trace := trace w @ [ThunkResolved]\<rparr>)"
  by (simp add: resetDeadlines_run new_events_def)

theorem resetDeadlines_refetches_only_on_success_witness:
  "updateCourseDeadlines sample_api ''course-v1'' = Rejected (RequestFailure 500)
   \<and> logged (resetDeadlines sample_api ''course-v1'' (fetchDatesTab sample_api)
               [CourseDeadlines, TabData, CourseHomeCourseMetadata] initial_world) = []
   \<and> new_events initial_world
        (resetDeadlines sample_api ''course-v1'' (fetchDatesTab sample_api)
               [CourseDeadlines, TabData, CourseHomeCourseMetadata] initial_world)
       = [ThunkResolved, Settled CourseDeadlines, UnhandledRejection (RequestFailure 500)]
   \<and> CourseDeadlines \<in> set [CourseDeadlines, TabData]
   \<and> updateCourseDeadlines (sample_api\<lparr>updateCourseDeadlines := (\<lambda>c. Fulfilled JNull)\<rparr>)
        ''course-v1'' = Fulfilled JNull
   \<and> resetDeadlines (sample_api\<lparr>updateCourseDeadlines := (\<lambda>c. Fulfilled JNull)\<rparr>)
        ''course-v1'' (fetchDatesTab sample_api) [CourseDeadlines, TabData] initial_world
       = fetchDatesTab sample_api ''course-v1'' [TabData]
           (initial_world\<lparr>trace := trace initial_world
                                    @ [ThunkResolved, Settled CourseDeadlines]\<rparr>)"
proof -
  have h1: "updateCourseDeadlines sample_api ''course-v1'' = Rejected (RequestFailure 500)"
    by (simp add: sample_api_def)
  have h2: "updateCourseDeadlines (sample_api\<lparr>updateCourseDeadlines := (\<lambda>c. Fulfilled JNull)\<rparr>)
              ''course-v1'' = Fulfilled JNull"
    by simp
  have h3: "logged initial_world = []"
    by (simp add: initial_world_def)
  from resetDeadlines_refetches_only_on_success
         [where a = sample_api and c = "''course-v1''" and e = "RequestFailure 500"
            and getTabData = "fetchDatesTab sample_api" and w = initial_world
            and sched = "[CourseDeadlines, TabData, CourseHomeCourseMetadata]"]
       resetDeadlines_refetches_only_on_success
         [where a = "sample_api\<lparr>updateCourseDeadlines := (\<lambda>c. Fulfilled JNull)\<rparr>"
            and c = "''course-v1''" and v = JNull
            and getTabData = "fetchDatesTab sample_api" and w = initial_world
            and sched = "[CourseDeadlines, TabData]"]
  show ?thesis
    using h1 h2 h3 by simp
qed





lemma allSettled_then_single:
  "allSettled_then [p] callback sched w =
     (if p \<in> set sched
      then callback (tl (dropWhile (\<lambda>r. r \<noteq> p) sched)) (observe (Settled p) w)
      else w)"
  by (simp add: allSettled_then_def settle_requests_single)

lemma read_field_merge_same:
  "read_field t i f (merge t i [f \<mapsto> v] s) = v"
  by (simp add: read_field_def get_merge_same split: option.splits)

lemma merge_back_restores:
  assumes "get t i s = Some r" and "r f = Some v"
  shows "merge t i [f \<mapsto> v] (merge t i [f \<mapsto> n] s) = s"
proof -
  have r: "r ++ ([f \<mapsto> n] ++ [f \<mapsto> v]) = r"
    using assms(2) by (intro ext) (simp add: map_add_def)
  have "merge t i [f \<mapsto> v] (merge t i [f \<mapsto> n] s)
          = merge t i ([f \<mapsto> n] ++ [f \<mapsto> v]) s"
    by (rule merge_merge_same)
  also have "\<dots> = s((t, i) \<mapsto> r ++ ([f \<mapsto> n] ++ [f \<mapsto> v]))"
    using assms(1) by (simp add: merge_def get_def)
  also have "\<dots> = s"
    using assms(1) by (simp only: r get_def map_upd_triv)
  finally show ?thesis .
qed

text \<open>
  C3. Once the write request has settled: if it was rejected with \<open>e\<close>, the stored
  position reads exactly as it did before the call, \<^verbatim>\<open>logError\<close> was called with \<open>e\<close>,
  and when the sequence record had a position the whole store is the one before the
  call; if it fulfilled, the stored position is the new value and nothing was logged.
\<close>

theorem saveSequencePosition_settles:
  assumes "SequencePosition \<in> set sched"
  shows "(postSequencePosition a courseId sequenceId newValue = Rejected e \<longrightarrow>
            read_field ''sequences'' (JStr sequenceId) ''position''
                (models (saveSequencePosition a courseId sequenceId newValue sched w))
              = read_field ''sequences'' (JStr sequenceId) ''position'' (models w)
          \<and> e \<in> set (logged (saveSequencePosition a courseId sequenceId newValue sched w))
          \<and> Logged e \<in> set (new_events w
                (saveSequencePosition a courseId sequenceId newValue sched w))
          \<and> (\<forall>r v. get ''sequences'' (JStr sequenceId) (models w) = Some r
                  \<and> r ''position'' = Some v \<longrightarrow>
                models (saveSequencePosition a courseId sequenceId newValue sched w)
                  = models w))
       \<and> (postSequencePosition a courseId sequenceId newValue = Fulfilled response \<longrightarrow>
            read_field ''sequences'' (JStr sequenceId) ''position''
                (models (saveSequencePosition a courseId sequenceId newValue sched w))
              = newValue
          \<and> logged (saveSequencePosition a courseId sequenceId newValue sched w) = logged w)"
proof (intro conjI impI)
  assume rej: "postSequencePosition a courseId sequenceId newValue = Rejected e"
  let ?w' = "saveSequencePosition a courseId sequenceId newValue sched w"
  let ?prev = "read_field ''sequences'' (JStr sequenceId) ''position'' (models w)"
  have m: "models ?w' = merge ''sequences'' (JStr sequenceId) [''position'' \<mapsto> ?prev]
             (merge ''sequences'' (JStr sequenceId) [''position'' \<mapsto> newValue] (models w))"
    using assms rej
    by (simp add: saveSequencePosition_def allSettled_then_single dispatch_def logError_def
          observe_def Let_def)
  show "read_field ''sequences'' (JStr sequenceId) ''position'' (models ?w') = ?prev"
    by (simp only: m read_field_merge_same)
  show "e \<in> set (logged ?w')"
    using assms rej
    by (simp add: saveSequencePosition_def allSettled_then_single dispatch_def logError_def
          observe_def Let_def)
  show "Logged e \<in> set (new_events w ?w')"
    using assms rej
    by (simp add: saveSequencePosition_def allSettled_then_single dispatch_def logError_def
          observe_def new_events_def Let_def)
  show "\<forall>r v. get ''sequences'' (JStr sequenceId) (models w) = Some r
                  \<and> r ''position'' = Some v \<longrightarrow> models ?w' = models w"
  proof (intro allI impI)
    fix r v
    assume h: "get ''sequences'' (JStr sequenceId) (models w) = Some r \<and> r ''position'' = Some v"
    then have "?prev = v"
      by (simp add: read_field_def)
    with h show "models ?w' = models w"
      by (simp add: m merge_back_restores)
  qed
next
  assume ok: "postSequencePosition a courseId sequenceId newValue = Fulfilled response"
  let ?w' = "saveSequencePosition a courseId sequenceId newValue sched w"
  have m: "models ?w'
             = merge ''sequences'' (JStr sequenceId) [''position'' \<mapsto> newValue] (models w)"
    using assms ok
    by (simp add: saveSequencePosition_def allSettled_then_single dispatch_def observe_def
          Let_def)
  show "read_field ''sequences'' (JStr sequenceId) ''position'' (models ?w') = newValue"
    by (simp only: m read_field_merge_same)
  show "logged ?w' = logged w"
    using assms ok
    by (simp add: saveSequencePosition_def allSettled_then_single dispatch_def observe_def
          Let_def)
qed

lemma sample_sequence_position:
  "read_field ''sequences'' (JStr ''seq1'') ''position''
     (models (fetchSequence sample_courseware_api ''seq1'' [SequenceMetadata] initial_world))
   = JNum 1"
  by (simp add: fetchSequence_def allSettled_then_single sample_courseware_api_def
        sequenceMetadata_def dispatch_def observe_def initial_world_def merge_def
        read_field_def get_def)

theorem saveSequencePosition_settles_witness:
  "SequencePosition \<in> set [SequencePosition]
   \<and> postSequencePosition sample_courseware_api ''course-v1'' ''seq1'' (JNum 123)
       = Rejected NetworkFailure
   \<and> read_field ''sequences'' (JStr ''seq1'') ''position''
        (models (saveSequencePosition sample_courseware_api ''course-v1'' ''seq1'' (JNum 123)
           [SequencePosition]
           (fetchSequence sample_courseware_api ''seq1'' [SequenceMetadata] initial_world)))
       = JNum 1
   \<and> NetworkFailure \<in> set (logged
        (saveSequencePosition sample_courseware_api ''course-v1'' ''seq1'' (JNum 123)
           [SequencePosition]
           (fetchSequence sample_courseware_api ''seq1'' [SequenceMetadata] initial_world)))"
proof -
  have h: "SequencePosition \<in> set [SequencePosition]"
    by simp
  have r: "postSequencePosition sample_courseware_api ''course-v1'' ''seq1'' (JNum 123)
             = Rejected NetworkFailure"
    by (simp add: sample_courseware_api_def)
  from saveSequencePosition_settles
         [where a = sample_courseware_api and courseId = "''course-v1''"
            and sequenceId = "''seq1''" and newValue = "JNum 123" and e = NetworkFailure
            and w = "fetchSequence sample_courseware_api ''seq1'' [SequenceMetadata] initial_world",
          OF h]
  show ?thesis
    using h r by (simp add: sample_sequence_position)
qed

text \<open>Writing a normalized payload: what it does to each component of the world.\<close>

lemma merge_entities_models:
  "models (merge_entities es w) = fold (\<lambda>(t, i, p). merge t i p) es (models w)"
  by (induction es arbitrary: w) (auto simp add: dispatch_def)


lemma merge_entities_logged: "logged (merge_entities es w) = logged w"
  by (induction es arbitrary: w) (auto simp add: dispatch_def)

lemma merge_entities_status: "status (merge_entities es w) = status w"
  by (induction es arbitrary: w) (auto simp add: dispatch_def)

lemma terminal_transitions_merges [simp]:
  "terminal_transitions (map (\<lambda>(t, i, p). Dispatched (Merge t i p)) es) = []"
  by (induction es) (auto simp add: terminal_transitions_Cons)





text \<open>What a payload carries for a record, read off its entities.\<close>

lemma payload_fields_absent:
  "(t, i) \<notin> (\<lambda>(t, i, p). (t, i)) ` set es \<Longrightarrow> payload_fields t i es = Map.empty"
  by (induction es) auto

lemma payload_fields_dom:
  "(t, i, p) \<in> set es \<Longrightarrow> dom p \<subseteq> dom (payload_fields t i es)"
proof (induction es)
  case Nil
  then show ?case by simp
next
  case (Cons e es)
  obtain t0 i0 p0 where e: "e = (t0, i0, p0)"
    by (cases e) auto
  show ?case
  proof (cases "e = (t, i, p)")
    case True
    have "dom p \<subseteq> dom (p ++ payload_fields t i es)"
      by (simp only: dom_map_add) blast
    with True show ?thesis
      by simp
  next
    case False
    with Cons have sub: "dom p \<subseteq> dom (payload_fields t i es)"
      by simp
    have "dom (payload_fields t i es) \<subseteq> dom (p0 ++ payload_fields t i es)"
      by (simp only: dom_map_add) blast
    with sub have "dom p \<subseteq> dom (p0 ++ payload_fields t i es)"
      by (rule order_trans)
    with sub show ?thesis
      by (simp add: e del: dom_map_add)
  qed
qed

lemma payload_fields_source:
  "payload_fields t i es f = Some x \<Longrightarrow> \<exists>p. (t, i, p) \<in> set es \<and> p f = Some x"
proof (induction es)
  case Nil
  then show ?case by simp
next
  case (Cons e es)
  obtain t0 i0 p0 where e: "e = (t0, i0, p0)"
    by (cases e) auto
  show ?case
  proof (cases "payload_fields t i es f")
    case None
    with Cons.prems have "t0 = t \<and> i0 = i \<and> p0 f = Some x"
      by (auto simp add: e map_add_def split: if_splits)
    then show ?thesis
      by (auto simp add: e)
  next
    case (Some y)
    with Cons.prems have "y = x"
      by (auto simp add: e map_add_def split: if_splits)
    with Some Cons.IH show ?thesis
      by auto
  qed
qed

lemma payload_fields_distinct:
  "distinct (map (\<lambda>(t, i, p). (t, i)) es) \<Longrightarrow> (t, i, p) \<in> set es
     \<Longrightarrow> payload_fields t i es = p"
proof (induction es)
  case Nil
  then show ?case by simp
next
  case (Cons e es)
  obtain t0 i0 p0 where e: "e = (t0, i0, p0)"
    by (cases e) auto
  show ?case
  proof (cases "e = (t, i, p)")
    case True
    with Cons.prems(1) have "(t, i) \<notin> (\<lambda>(t, i, p). (t, i)) ` set es"
      by force
    then have "payload_fields t i es = Map.empty"
      by (rule payload_fields_absent)
    with True show ?thesis
      by simp
  next
    case False
    with Cons.prems have mem: "(t, i, p) \<in> set es"
      by simp
    then have "(t, i) \<in> (\<lambda>(t, i, p). (t, i)) ` set es"
      by force
    with Cons.prems(1) have "(t0, i0) \<noteq> (t, i)"
      by (force simp add: e)
    moreover from Cons.IH Cons.prems(1) mem have "payload_fields t i es = p"
      by simp
    ultimately show ?thesis
      by (auto simp add: e)
  qed
qed

text \<open>The record a sequence of merges leaves under one type and id.\<close>

lemma fold_merge_exact:
  "get t i (fold (\<lambda>(t, i, p). merge t i p) es s) =
     (case get t i s of
        Some r \<Rightarrow> Some (r ++ payload_fields t i es)
      | None \<Rightarrow> (if (t, i) \<in> (\<lambda>(t, i, p). (t, i)) ` set es
                  then Some (payload_fields t i es) else None))"
proof (induction es arbitrary: s)
  case Nil
  then show ?case by (simp split: option.splits)
next
  case (Cons e es)
  obtain t0 i0 p0 where e: "e = (t0, i0, p0)"
    by (cases e) auto
  show ?case
  proof (cases "(t0, i0) = (t, i)")
    case True
    then have "get t i (merge t0 i0 p0 s)
                 = Some (case get t i s of None \<Rightarrow> p0 | Some r \<Rightarrow> r ++ p0)"
      by (simp add: get_merge_same)
    with True show ?thesis
      by (simp add: e Cons.IH split: option.splits)
  next
    case False
    then have "(t, i) \<noteq> (t0, i0)"
      by auto
    from get_merge_other [OF this] have "get t i (merge t0 i0 p0 s) = get t i s"
      by simp
    with False show ?thesis
      by (auto simp add: e Cons.IH split: option.splits)
  qed
qed

lemma fetchSequence_fulfilled:
  assumes "SequenceMetadata \<in> set sched"
    and "getSequenceMetadata a sequenceId = Fulfilled entities"
  shows "models (fetchSequence a sequenceId sched w)
           = fold (\<lambda>(t, i, p). merge t i p) entities (models w)"
    and "status (fetchSequence a sequenceId sched w) (Sequence sequenceId) = Loaded"
    and "logged (fetchSequence a sequenceId sched w) = logged w"
  using assms
  by (simp_all add: fetchSequence_def allSettled_then_single dispatch_def observe_def
        merge_entities_models merge_entities_status merge_entities_logged)

text \<open>
  C8, as the merge has it. After a finished, successful sequence fetch, every record
  that was in the store is still there with every field it had, and each of its fields
  has the value the sequence payload carries for it if the payload carries one, and
  its old value otherwise. Every record of the payload is in the store under its own
  type and id, with all the payload's fields at the payload's values. What the payload
  carries for a record is the value of one of its entities for that record, and the
  entity itself when the payload has one entity per record. Records the payload does
  not mention are as they were.
\<close>

theorem fetchSequence_merges_onto_existing:
  assumes "SequenceMetadata \<in> set sched"
    and "getSequenceMetadata a sequenceId = Fulfilled entities"
  shows "(\<forall>t i r. get t i (models w) = Some r \<longrightarrow>
            (\<exists>r'. get t i (models (fetchSequence a sequenceId sched w)) = Some r'
               \<and> dom r \<subseteq> dom r'
               \<and> (\<forall>f. r' f = (case payload_fields t i entities f of
                                  Some x \<Rightarrow> Some x | None \<Rightarrow> r f))
               \<and> (\<forall>f. (\<forall>(t', i', p) \<in> set entities. (t', i') = (t, i) \<longrightarrow> f \<notin> dom p)
                       \<longrightarrow> r' f = r f)))
       \<and> (\<forall>(t, i, p) \<in> set entities.
            \<exists>r'. get t i (models (fetchSequence a sequenceId sched w)) = Some r'
               \<and> dom p \<subseteq> dom r'
               \<and> (\<forall>f x. payload_fields t i entities f = Some x \<longrightarrow> r' f = Some x))
       \<and> (\<forall>t i f x. payload_fields t i entities f = Some x \<longrightarrow>
            (\<exists>p. (t, i, p) \<in> set entities \<and> p f = Some x))
       \<and> (distinct (map (\<lambda>(t, i, p). (t, i)) entities) \<longrightarrow>
            (\<forall>(t, i, p) \<in> set entities. payload_fields t i entities = p))
       \<and> (\<forall>t i. (t, i) \<notin> (\<lambda>(t, i, p). (t, i)) ` set entities \<longrightarrow>
            get t i (models (fetchSequence a sequenceId sched w)) = get t i (models w))
       \<and> status (fetchSequence a sequenceId sched w) (Sequence sequenceId) = Loaded"
proof (intro conjI)
  let ?s' = "models (fetchSequence a sequenceId sched w)"
  have after: "get t i ?s' =
     (case get t i (models w) of
        Some r \<Rightarrow> Some (r ++ payload_fields t i entities)
      | None \<Rightarrow> (if (t, i) \<in> (\<lambda>(t, i, p). (t, i)) ` set entities
                  then Some (payload_fields t i entities) else None))" for t i
    by (simp only: fetchSequence_fulfilled(1) [OF assms] fold_merge_exact)
  show "\<forall>t i r. get t i (models w) = Some r \<longrightarrow>
            (\<exists>r'. get t i ?s' = Some r'
               \<and> dom r \<subseteq> dom r'
               \<and> (\<forall>f. r' f = (case payload_fields t i entities f of
                                  Some x \<Rightarrow> Some x | None \<Rightarrow> r f))
               \<and> (\<forall>f. (\<forall>(t', i', p) \<in> set entities. (t', i') = (t, i) \<longrightarrow> f \<notin> dom p)
                       \<longrightarrow> r' f = r f))"
  proof (intro allI impI)
    fix t i r
    assume r: "get t i (models w) = Some r"
    let ?r' = "r ++ payload_fields t i entities"
    have "get t i ?s' = Some ?r'"
      by (simp add: after r)
    moreover have "dom r \<subseteq> dom ?r'"
      by auto
    moreover have "\<forall>f. ?r' f = (case payload_fields t i entities f of
                                  Some x \<Rightarrow> Some x | None \<Rightarrow> r f)"
      by (simp add: map_add_def)
    moreover have "\<forall>f. (\<forall>(t', i', p) \<in> set entities. (t', i') = (t, i) \<longrightarrow> f \<notin> dom p)
                       \<longrightarrow> ?r' f = r f"
    proof (intro allI impI)
      fix f
      assume none: "\<forall>(t', i', p) \<in> set entities. (t', i') = (t, i) \<longrightarrow> f \<notin> dom p"
      have "payload_fields t i entities f = None"
      proof (cases "payload_fields t i entities f")
        case None
        then show ?thesis .
      next
        case (Some x)
        from payload_fields_source [OF this] none show ?thesis
          by auto
      qed
      then show "?r' f = r f"
        by (simp add: map_add_def)
    qed
    ultimately show "\<exists>r'. get t i ?s' = Some r'
               \<and> dom r \<subseteq> dom r'
               \<and> (\<forall>f. r' f = (case payload_fields t i entities f of
                                  Some x \<Rightarrow> Some x | None \<Rightarrow> r f))
               \<and> (\<forall>f. (\<forall>(t', i', p) \<in> set entities. (t', i') = (t, i) \<longrightarrow> f \<notin> dom p)
                       \<longrightarrow> r' f = r f)"
      by blast
  qed
  show "\<forall>(t, i, p) \<in> set entities.
            \<exists>r'. get t i ?s' = Some r'
               \<and> dom p \<subseteq> dom r'
               \<and> (\<forall>f x. payload_fields t i entities f = Some x \<longrightarrow> r' f = Some x)"
  proof (intro ballI, clarify)
    fix t i p
    assume mem: "(t, i, p) \<in> set entities"
    then have key: "(t, i) \<in> (\<lambda>(t, i, p). (t, i)) ` set entities"
      by force
    let ?r' = "case get t i (models w) of
                 Some r \<Rightarrow> r ++ payload_fields t i entities
               | None \<Rightarrow> payload_fields t i entities"
    have "get t i ?s' = Some ?r'"
      using key by (simp add: after split: option.splits)
    moreover have "dom p \<subseteq> dom ?r'"
      using payload_fields_dom [OF mem] by (auto split: option.splits)
    moreover have "\<forall>f x. payload_fields t i entities f = Some x \<longrightarrow> ?r' f = Some x"
      by (simp add: map_add_def split: option.splits)
    ultimately show "\<exists>r'. get t i ?s' = Some r'
               \<and> dom p \<subseteq> dom r'
               \<and> (\<forall>f x. payload_fields t i entities f = Some x \<longrightarrow> r' f = Some x)"
      by blast
  qed
  show "\<forall>t i f x. payload_fields t i entities f = Some x \<longrightarrow>
            (\<exists>p. (t, i, p) \<in> set entities \<and> p f = Some x)"
    by (intro allI impI) (rule payload_fields_source)
  show "distinct (map (\<lambda>(t, i, p). (t, i)) entities) \<longrightarrow>
            (\<forall>(t, i, p) \<in> set entities. payload_fields t i entities = p)"
    by (auto intro: payload_fields_distinct)
  show "\<forall>t i. (t, i) \<notin> (\<lambda>(t, i, p). (t, i)) ` set entities \<longrightarrow>
            get t i ?s' = get t i (models w)"
    by (simp add: after payload_fields_absent split: option.splits)
  show "status (fetchSequence a sequenceId sched w) (Sequence sequenceId) = Loaded"
    by (rule fetchSequence_fulfilled(2) [OF assms])
qed

text \<open>The store after the sample course has been fetched.\<close>

lemma sample_course_models:
  "models (fetchCourse sample_courseware_api ''course-v1'' [CourseMetadata, CourseBlocks]
             initial_world)
     = [(''courses'', JStr ''course-v1'') \<mapsto> courseMetadata,
        (''sequences'', JStr ''seq1'') \<mapsto>
           [''title'' \<mapsto> JStr ''Lesson'', ''unitIds'' \<mapsto> JArr [JStr ''unit1'']],
        (''units'', JStr ''unit1'') \<mapsto>
           [''title'' \<mapsto> JStr ''Unit'', ''sequenceId'' \<mapsto> JStr ''seq1'']]"
  by (simp add: fetchCourse_def allSettled_then_def fetchCourse_then_def Let_def
        sample_courseware_api_def courseBlocks_def dispatch_def observe_def
        initial_world_def merge_def)

theorem fetchSequence_merges_onto_existing_witness:
  "SequenceMetadata \<in> set [SequenceMetadata]
   \<and> getSequenceMetadata sample_courseware_api ''seq1'' = Fulfilled sequenceMetadata
   \<and> get ''units'' (JStr ''unit1'')
        (models (fetchCourse sample_courseware_api ''course-v1''
                   [CourseMetadata, CourseBlocks] initial_world))
       = Some [''title'' \<mapsto> JStr ''Unit'', ''sequenceId'' \<mapsto> JStr ''seq1'']
   \<and> (\<exists>r'. get ''units'' (JStr ''unit1'')
              (models (fetchSequence sample_courseware_api ''seq1'' [SequenceMetadata]
                 (fetchCourse sample_courseware_api ''course-v1''
                    [CourseMetadata, CourseBlocks] initial_world))) = Some r'
         \<and> r' ''sequenceId'' = Some (JStr ''seq1'')
         \<and> r' ''complete'' = Some JNull
         \<and> r' ''bookmarked'' = Some (JBool False)
         \<and> r' ''title'' = Some (JStr ''Page''))"
proof -
  let ?wc = "fetchCourse sample_courseware_api ''course-v1'' [CourseMetadata, CourseBlocks]
               initial_world"
  let ?ws = "fetchSequence sample_courseware_api ''seq1'' [SequenceMetadata] ?wc"
  let ?r = "[''title'' \<mapsto> JStr ''Unit'', ''sequenceId'' \<mapsto> JStr ''seq1'']"
  have h1: "SequenceMetadata \<in> set [SequenceMetadata]"
    by simp
  have h2: "getSequenceMetadata sample_courseware_api ''seq1'' = Fulfilled sequenceMetadata"
    by (simp add: sample_courseware_api_def)
  have before: "get ''units'' (JStr ''unit1'') (models ?wc) = Some ?r"
    by (simp add: sample_course_models get_def)
  have carried: "payload_fields ''units'' (JStr ''unit1'') sequenceMetadata
                   = [''title'' \<mapsto> JStr ''Page'', ''complete'' \<mapsto> JNull,
                      ''bookmarked'' \<mapsto> JBool False]"
    by (simp add: sequenceMetadata_def)
  note inst = fetchSequence_merges_onto_existing [OF h1 h2, of ?wc]
  from inst [THEN conjunct1, rule_format, OF before] obtain r' where
    r': "get ''units'' (JStr ''unit1'') (models ?ws) = Some r'"
      "\<forall>f. r' f = (case payload_fields ''units'' (JStr ''unit1'') sequenceMetadata f of
                      Some x \<Rightarrow> Some x | None \<Rightarrow> ?r f)"
    by (elim exE conjE)
  have "r' ''sequenceId'' = Some (JStr ''seq1'')"
    and "r' ''complete'' = Some JNull"
    and "r' ''bookmarked'' = Some (JBool False)"
    and "r' ''title'' = Some (JStr ''Page'')"
    by (simp_all add: r'(2) carried)
  with r'(1) have "\<exists>r'. get ''units'' (JStr ''unit1'') (models ?ws) = Some r'
         \<and> r' ''sequenceId'' = Some (JStr ''seq1'')
         \<and> r' ''complete'' = Some JNull
         \<and> r' ''bookmarked'' = Some (JBool False)
         \<and> r' ''title'' = Some (JStr ''Page'')"
    by (intro exI [of _ r']) simp
  with h1 h2 before show ?thesis
    by (intro conjI)
qed

text \<open>
  C8 as stated fails where the two fetches carry the same field. The store's merge lets
  new values overwrite old and validates nothing, and nothing in the fetch contract
  keeps the sequence payload's fields apart from the block tree's. Here the course
  fetch stores the unit's \<open>title\<close> from the block tree, the sequence payload carries
  a \<open>title\<close> for the same unit, and after the sequence fetch the stored title is the
  payload's.
\<close>

theorem fetchSequence_overwrites_shared_field:
  "read_field ''units'' (JStr ''unit1'') ''title''
     (models (fetchCourse sample_courseware_api ''course-v1'' [CourseMetadata, CourseBlocks]
                initial_world))
     = JStr ''Unit''
   \<and> read_field ''units'' (JStr ''unit1'') ''title''
        (models (fetchSequence sample_courseware_api ''seq1'' [SequenceMetadata]
           (fetchCourse sample_courseware_api ''course-v1'' [CourseMetadata, CourseBlocks]
              initial_world)))
     = JStr ''Page''"
proof -
  let ?wc = "fetchCourse sample_courseware_api ''course-v1'' [CourseMetadata, CourseBlocks]
               initial_world"
  have h1: "SequenceMetadata \<in> set [SequenceMetadata]"
    by simp
  have h2: "getSequenceMetadata sample_courseware_api ''seq1'' = Fulfilled sequenceMetadata"
    by (simp add: sample_courseware_api_def)
  have "read_field ''units'' (JStr ''unit1'') ''title'' (models ?wc) = JStr ''Unit''"
    by (simp add: sample_course_models read_field_def get_def)
  moreover have "read_field ''units'' (JStr ''unit1'') ''title''
        (models (fetchSequence sample_courseware_api ''seq1'' [SequenceMetadata] ?wc))
     = JStr ''Page''"
    by (simp add: fetchSequence_fulfilled(1) [OF h1 h2] sample_course_models
          sequenceMetadata_def merge_def read_field_def get_def)
  ultimately show ?thesis
    by simp
qed

end
